theory Spec2Isabelle
  imports Main "HOL-Library.Word" "HOL-Library.Multiset"
begin

section \<open>Common types\<close>

text \<open>
  Go's \<open>int64\<close> is a 64-bit word read as two's complement (\<open>sint\<close>); \<open>+\<close> and \<open>-\<close>
  wrap around as they do in Go. \<open>time.Now()\<close> is passed in as a parameter \<open>now\<close>.
  Go's \<open>int\<close> (slice indices, lengths, replica counts) is modelled as \<open>int\<close>: no claim
  below depends on its width.
\<close>

type_synonym int64 = "64 word"
type_synonym time = nat

text \<open>
  The errors the modelled functions return (\<open>errors.New\<close>, \<open>fmt.Errorf\<close>), one
  constructor per message. The Go code returns plain \<open>error\<close> values; \<open>kind\<close> gives the
  kind under which the specification's error design files each message.
\<close>

datatype error =
    InvalidNodeAddress          \<comment> \<open>"invalid node address"\<close>
  | AddressAlreadyRegistered    \<comment> \<open>"address already registered to another node"\<close>
  | NodeNotFound                \<comment> \<open>"node not found"\<close>
  | InvalidNodeStatus           \<comment> \<open>"invalid node status"\<close>
  | StorageUsedNegative         \<comment> \<open>"storage used cannot be negative"\<close>
  | StorageUsedExceedsMax       \<comment> \<open>"storage used exceeds maximum storage"\<close>
  | PeerNotFound string         \<comment> \<open>"peer %s not found"\<close>
  | InvalidChunkIndex int       \<comment> \<open>"invalid chunk index: %d"\<close>
  | FailedToCreateChunksDir     \<comment> \<open>"failed to create chunks directory: ..."\<close>
  | FailedToOpenFile            \<comment> \<open>"failed to open file: ..."\<close>
  | FailedToCalculateFileHash   \<comment> \<open>"failed to calculate file hash: ..."\<close>
  | FailedToResetFilePointer    \<comment> \<open>"failed to reset file pointer: ..."\<close>
  | FailedToCreateFileChunksDir \<comment> \<open>"failed to create file chunks directory: ..."\<close>
  | FailedToReadFile            \<comment> \<open>"failed to read file: ..."\<close>
  | FailedToWriteChunk          \<comment> \<open>"failed to write chunk: ..."\<close>
  | FailedToCreateOutputFile    \<comment> \<open>"failed to create output file: ..."\<close>
  | FailedToReadChunk string    \<comment> \<open>"failed to read chunk %s: ..."\<close>
  | FailedToWriteOutputFile     \<comment> \<open>"failed to write to output file: ..."\<close>
  | PeerConnectionClosed        \<comment> \<open>"peer connection is closed"\<close>
  | HandlerError string         \<comment> \<open>any other error a message handler returns\<close>

datatype error_kind = NotFound | Conflict | InvalidInput | IOFailure

fun kind :: "error \<Rightarrow> error_kind" where
  "kind InvalidNodeAddress = InvalidInput"
| "kind AddressAlreadyRegistered = Conflict"
| "kind NodeNotFound = NotFound"
| "kind InvalidNodeStatus = InvalidInput"
| "kind StorageUsedNegative = InvalidInput"
| "kind StorageUsedExceedsMax = InvalidInput"
| "kind (PeerNotFound p) = NotFound"
| "kind (InvalidChunkIndex i) = InvalidInput"
| "kind FailedToCreateChunksDir = IOFailure"
| "kind FailedToOpenFile = IOFailure"
| "kind FailedToCalculateFileHash = IOFailure"
| "kind FailedToResetFilePointer = IOFailure"
| "kind FailedToCreateFileChunksDir = IOFailure"
| "kind FailedToReadFile = IOFailure"
| "kind FailedToWriteChunk = IOFailure"
| "kind FailedToCreateOutputFile = IOFailure"
| "kind (FailedToReadChunk c) = IOFailure"
| "kind FailedToWriteOutputFile = IOFailure"
| "kind PeerConnectionClosed = IOFailure"
| "kind (HandlerError m) = IOFailure"

text \<open>A Go call returns, panics at run time, or runs forever.\<close>

datatype panic =
    MakeSliceLenOutOfRange      \<comment> \<open>\<open>make([]T, n)\<close> with \<open>n < 0\<close>\<close>
  | NilPointerDereference       \<comment> \<open>a field read through a nil pointer\<close>

datatype 'a outcome =
    Returned 'a
  | Panicked panic
  | Diverges                    \<comment> \<open>the call never returns\<close>

section \<open>Node registry (package node, NodeManager)\<close>

record Node =
  ID :: string
  Address :: string
  Status :: string
  StorageUsed :: int64
  StorageMax :: int64
  LastSeen :: time

record NodeManager =
  nodes :: "string \<rightharpoonup> Node"
  nodeAddrs :: "string \<rightharpoonup> string"

definition NewNodeManager :: NodeManager where
  "NewNodeManager = \<lparr>nodes = Map.empty, nodeAddrs = Map.empty\<rparr>"

text \<open>
  \<open>RegisterNode\<close>. \<open>url.Parse\<close> belongs to Go's standard library; only whether it
  returns an error matters here, so it is the parameter \<open>url_Parse\<close> (\<open>True\<close>: no error).
  The function returns Go's pair \<open>(*Node, error)\<close> as a sum, together with the updated
  manager.
\<close>

definition RegisterNode ::
  "(string \<Rightarrow> bool) \<Rightarrow> time \<Rightarrow> NodeManager \<Rightarrow> string \<Rightarrow> string \<Rightarrow> int64
     \<Rightarrow> (error + Node) \<times> NodeManager" where
  "RegisterNode url_Parse now nm nid address storageMax =
    (if \<not> url_Parse address then (Inl InvalidNodeAddress, nm)
     else if (case nodeAddrs nm address of
                Some existingID \<Rightarrow> existingID \<noteq> nid
              | None \<Rightarrow> False)
     then (Inl AddressAlreadyRegistered, nm)
     else
       (let node = (case nodes nm nid of
              None \<Rightarrow> \<lparr>Node.ID = nid, Node.Address = address, Status = ''active'',
                        StorageUsed = 0, StorageMax = storageMax, LastSeen = now\<rparr>
            | Some n \<Rightarrow> n\<lparr>Node.Address := address, Status := ''active'',
                           StorageMax := storageMax, LastSeen := now\<rparr>)
        in (Inr node, nm\<lparr>nodes := (nodes nm)(nid \<mapsto> node),
                          nodeAddrs := (nodeAddrs nm)(address \<mapsto> nid)\<rparr>)))"

definition GetNode :: "NodeManager \<Rightarrow> string \<Rightarrow> error + Node" where
  "GetNode nm nid = (case nodes nm nid of None \<Rightarrow> Inl NodeNotFound | Some n \<Rightarrow> Inr n)"

definition UpdateNodeStatus ::
  "time \<Rightarrow> NodeManager \<Rightarrow> string \<Rightarrow> string \<Rightarrow> error option \<times> NodeManager" where
  "UpdateNodeStatus now nm nid status =
    (case nodes nm nid of
       None \<Rightarrow> (Some NodeNotFound, nm)
     | Some node \<Rightarrow>
         if status \<noteq> ''active'' \<and> status \<noteq> ''inactive'' \<and> status \<noteq> ''failed''
         then (Some InvalidNodeStatus, nm)
         else (None, nm\<lparr>nodes := (nodes nm)(nid \<mapsto> node\<lparr>Status := status, LastSeen := now\<rparr>)\<rparr>))"

definition UpdateNodeStorage ::
  "time \<Rightarrow> NodeManager \<Rightarrow> string \<Rightarrow> int64 \<Rightarrow> error option \<times> NodeManager" where
  "UpdateNodeStorage now nm nid storageUsed =
    (case nodes nm nid of
       None \<Rightarrow> (Some NodeNotFound, nm)
     | Some node \<Rightarrow>
         if sint storageUsed < 0 then (Some StorageUsedNegative, nm)
         else if sint storageUsed > sint (StorageMax node) then (Some StorageUsedExceedsMax, nm)
         else (None, nm\<lparr>nodes := (nodes nm)(nid \<mapsto>
                                node\<lparr>StorageUsed := storageUsed, LastSeen := now\<rparr>)\<rparr>))"

definition RemoveNode :: "NodeManager \<Rightarrow> string \<Rightarrow> error option \<times> NodeManager" where
  "RemoveNode nm nid =
    (case nodes nm nid of
       None \<Rightarrow> (Some NodeNotFound, nm)
     | Some node \<Rightarrow>
         (None, nm\<lparr>nodeAddrs := (nodeAddrs nm)(Node.Address node := None),
                    nodes := (nodes nm)(nid := None)\<rparr>))"

definition HeartbeatNode :: "time \<Rightarrow> NodeManager \<Rightarrow> string \<Rightarrow> error option \<times> NodeManager" where
  "HeartbeatNode now nm nid =
    (case nodes nm nid of
       None \<Rightarrow> (Some NodeNotFound, nm)
     | Some node \<Rightarrow> (None, nm\<lparr>nodes := (nodes nm)(nid \<mapsto> node\<lparr>LastSeen := now\<rparr>)\<rparr>))"

text \<open>The storage bound of a node, \<open>0 \<le> storageUsed \<le> storageMax\<close>, and of a registry.\<close>

definition node_inv :: "Node \<Rightarrow> bool" where
  "node_inv n \<longleftrightarrow> 0 \<le> sint (StorageUsed n) \<and> sint (StorageUsed n) \<le> sint (StorageMax n)"

definition storage_inv :: "NodeManager \<Rightarrow> bool" where
  "storage_inv nm \<longleftrightarrow> (\<forall>nid n. nodes nm nid = Some n \<longrightarrow> node_inv n)"

text \<open>
  Go iterates over a map in an unspecified order. A \<open>range\<close> over \<open>nm.nodes\<close> is
  modelled by the list of keys in the order of that iteration (\<open>order\<close>, a parameter):
  the values visited are the entries found under these keys.
\<close>

definition range_nodes :: "NodeManager \<Rightarrow> string list \<Rightarrow> Node list" where
  "range_nodes nm order = List.map_filter (nodes nm) order"

definition ListNodes :: "NodeManager \<Rightarrow> string list \<Rightarrow> Node list" where
  "ListNodes nm order = range_nodes nm order"

text \<open>The free space the selector computes, \<open>node.StorageMax - node.StorageUsed\<close> in \<open>int64\<close>.\<close>

definition avail :: "Node \<Rightarrow> int" where
  "avail n = sint (StorageMax n - StorageUsed n)"

text \<open>
  The two nested loops of \<open>GetOptimalStorageNodes\<close>: for each \<open>i\<close>, every later \<open>j\<close>
  whose node has more free space than the node at \<open>i\<close> is swapped with it.
\<close>

function sort_inner :: "nat \<Rightarrow> nat \<Rightarrow> Node list \<Rightarrow> Node list" where
  "sort_inner i j eligibleNodes =
    (if j < length eligibleNodes then
       (let iAvail = avail (eligibleNodes ! i);
            jAvail = avail (eligibleNodes ! j)
        in sort_inner i (j + 1)
             (if jAvail > iAvail
              then eligibleNodes[i := eligibleNodes ! j, j := eligibleNodes ! i]
              else eligibleNodes))
     else eligibleNodes)"
  by pat_completeness auto
termination
  by (relation "measure (\<lambda>(i, j, xs). length xs - j)") auto

declare sort_inner.simps [simp del]

lemma length_sort_inner [simp]: "length (sort_inner i j xs) = length xs"
proof (induction i j xs rule: sort_inner.induct)
  case (1 i j xs)
  show ?case
  proof (cases "j < length xs")
    case True
    with "1.IH" [OF True refl refl] show ?thesis
      by (subst sort_inner.simps) (simp add: Let_def)
  next
    case False
    then show ?thesis by (subst sort_inner.simps) simp
  qed
qed

function sort_outer :: "nat \<Rightarrow> Node list \<Rightarrow> Node list" where
  "sort_outer i eligibleNodes =
    (if int i < int (length eligibleNodes) - 1
     then sort_outer (i + 1) (sort_inner i (i + 1) eligibleNodes)
     else eligibleNodes)"
  by pat_completeness auto
termination
  by (relation "measure (\<lambda>(i, xs). length xs - i)") auto

declare sort_outer.simps [simp del]

text \<open>The helper \<open>min\<close> of the package (named apart from HOL's \<open>min\<close>).\<close>

definition min_int :: "int \<Rightarrow> int \<Rightarrow> int" where
  "min_int a b = (if a < b then a else b)"

definition eligible :: "int64 \<Rightarrow> Node \<Rightarrow> bool" where
  "eligible fileSize node \<longleftrightarrow> Status node = ''active'' \<and> avail node \<ge> sint fileSize"

text \<open>
  \<open>GetOptimalStorageNodes\<close>: filter, sort, then \<open>make([]string, resultCount)\<close>, which
  panics when \<open>resultCount\<close> is negative, and the copy of the first \<open>resultCount\<close> ids.
\<close>

definition GetOptimalStorageNodes ::
  "NodeManager \<Rightarrow> string list \<Rightarrow> int64 \<Rightarrow> int \<Rightarrow> string list outcome" where
  "GetOptimalStorageNodes nm order fileSize replicaCount =
    (let eligibleNodes = filter (eligible fileSize) (range_nodes nm order);
         sortedNodes = sort_outer 0 eligibleNodes;
         resultCount = min_int replicaCount (int (length sortedNodes))
     in if resultCount < 0 then Panicked MakeSliceLenOutOfRange
        else Returned (map Node.ID (take (nat resultCount) sortedNodes)))"

text \<open>The registry of the placement example: four nodes with 5000, 0, 2000 and 3000 bytes free.\<close>

definition example_registry :: NodeManager where
  "example_registry =
    \<lparr>nodes = [''n1'' \<mapsto> \<lparr>Node.ID = ''n1'', Node.Address = ''http://a'', Status = ''active'',
                          StorageUsed = 0, StorageMax = 5000, LastSeen = 0\<rparr>,
              ''n2'' \<mapsto> \<lparr>Node.ID = ''n2'', Node.Address = ''http://b'', Status = ''active'',
                          StorageUsed = 1000, StorageMax = 1000, LastSeen = 0\<rparr>,
              ''n3'' \<mapsto> \<lparr>Node.ID = ''n3'', Node.Address = ''http://c'', Status = ''failed'',
                          StorageUsed = 0, StorageMax = 2000, LastSeen = 0\<rparr>,
              ''n4'' \<mapsto> \<lparr>Node.ID = ''n4'', Node.Address = ''http://d'', Status = ''active'',
                          StorageUsed = 0, StorageMax = 3000, LastSeen = 0\<rparr>],
     nodeAddrs = [''http://a'' \<mapsto> ''n1'', ''http://b'' \<mapsto> ''n2'',
                  ''http://c'' \<mapsto> ''n3'', ''http://d'' \<mapsto> ''n4'']\<rparr>"

section \<open>Peer-to-peer overlay (package node, P2PNetwork)\<close>

type_synonym byte = "8 word"
type_synonym conn = nat

record Peer =
  ID :: string
  Address :: string
  Conn :: "conn option"         \<comment> \<open>\<open>None\<close>: a nil \<open>net.Conn\<close>\<close>
  LastActive :: time
  IsActive :: bool

type_synonym MessageType = int

record Message =
  Type :: MessageType
  Payload :: "byte list"

type_synonym MessageHandler = "Peer \<Rightarrow> Message \<Rightarrow> error option"

text \<open>
  The network object. \<open>closedConns\<close> is not a field of the Go struct: it records which
  sockets \<open>Conn.Close()\<close> has been called on, the effect of closing a connection.
\<close>

record P2PNetwork =
  peers :: "string \<rightharpoonup> Peer"
  handlers :: "MessageType \<rightharpoonup> MessageHandler"
  isRunning :: bool
  nodeManager :: NodeManager
  closedConns :: "conn set"

definition range_peers :: "P2PNetwork \<Rightarrow> string list \<Rightarrow> Peer list" where
  "range_peers p order = List.map_filter (peers p) order"

text \<open>
  \<open>DisconnectPeer\<close>: the first peer of the iteration whose \<open>ID\<close> is \<open>peerID\<close> is closed
  and deleted under its address; without one the call returns the error.
\<close>

definition DisconnectPeer ::
  "string list \<Rightarrow> P2PNetwork \<Rightarrow> string \<Rightarrow> error option \<times> P2PNetwork" where
  "DisconnectPeer order p peerID =
    (case find (\<lambda>peer. Peer.ID peer = peerID) (range_peers p order) of
       Some peerToRemove \<Rightarrow>
         (None, p\<lparr>closedConns := (case Conn peerToRemove of
                                     Some c \<Rightarrow> insert c (closedConns p)
                                   | None \<Rightarrow> closedConns p),
                    peers := (peers p)(Peer.Address peerToRemove := None)\<rparr>)
     | None \<Rightarrow> (Some (PeerNotFound peerID), p))"

text \<open>A network with two connected peers, used to exercise \<open>DisconnectPeer\<close>.\<close>

definition example_network :: P2PNetwork where
  "example_network =
    \<lparr>peers = [''10.0.0.1:9000'' \<mapsto> \<lparr>Peer.ID = ''p1'', Peer.Address = ''10.0.0.1:9000'',
                                      Conn = Some 1, LastActive = 0, IsActive = True\<rparr>,
              ''10.0.0.2:9000'' \<mapsto> \<lparr>Peer.ID = ''p2'', Peer.Address = ''10.0.0.2:9000'',
                                      Conn = Some 2, LastActive = 0, IsActive = True\<rparr>],
     handlers = Map.empty,
     isRunning = True,
     nodeManager = NewNodeManager,
     closedConns = {}\<rparr>"

subsection \<open>Framing\<close>

text \<open>
  \<open>binary.BigEndian.Uint32\<close> and \<open>PutUint32\<close> on a 4-byte buffer, and the bytes
  \<open>Peer.Send\<close> writes for one message: the length prefix, then the data.
\<close>

type_synonym uint32 = "32 word"

fun BigEndian_Uint32 :: "byte list \<Rightarrow> uint32" where
  "BigEndian_Uint32 [b0, b1, b2, b3] =
     or (ucast b3) (or (push_bit 8 (ucast b2)) (or (push_bit 16 (ucast b1)) (push_bit 24 (ucast b0))))"
| "BigEndian_Uint32 _ = 0"

definition BigEndian_PutUint32 :: "uint32 \<Rightarrow> byte list" where
  "BigEndian_PutUint32 v =
     [ucast (drop_bit 24 v), ucast (drop_bit 16 v), ucast (drop_bit 8 v), ucast v]"

definition frame :: "byte list \<Rightarrow> byte list" where
  "frame data = BigEndian_PutUint32 (word_of_nat (length data)) @ data"

definition Send :: "Peer \<Rightarrow> byte list \<Rightarrow> error option \<times> byte list" where
  "Send peer data =
    (if Conn peer = None \<or> \<not> IsActive peer then (Some PeerConnectionClosed, [])
     else (None, frame data))"

subsection \<open>The read loop of a connection\<close>

text \<open>
  \<open>input\<close> holds the bytes the remote side still sends before it closes the stream.
  \<open>io.ReadFull\<close> of \<open>n\<close> bytes returns them, or fails with \<open>io.EOF\<close> when the stream has
  ended with nothing read and with \<open>io.ErrUnexpectedEOF\<close> when it ends part-way.
\<close>

datatype read_error = EOF | ErrUnexpectedEOF | ErrClosed

definition io_ReadFull :: "byte list \<Rightarrow> nat \<Rightarrow> read_error + byte list \<times> byte list" where
  "io_ReadFull inp n =
    (if n \<le> length inp then Inr (take n inp, drop n inp)
     else if inp = [] then Inl EOF else Inl ErrUnexpectedEOF)"

text \<open>What the loop prints and whom it calls, in order.\<close>

datatype event =
    ErrorReadingLength                  \<comment> \<open>"Error reading message length from peer ..."\<close>
  | ErrorReadingMessage                 \<comment> \<open>"Error reading message from peer ..."\<close>
  | ErrorDecodingMessage                \<comment> \<open>"Error decoding message from peer ..."\<close>
  | HandlerCalled MessageType Message   \<comment> \<open>\<open>handler(peer, msg)\<close> is called\<close>
  | ErrorHandlingMessage MessageType    \<comment> \<open>"Error handling message type ..."\<close>
  | NoHandlerRegistered MessageType     \<comment> \<open>"No handler registered for message type ..."\<close>

record reader_state =
  peer :: Peer
  input :: "byte list"
  closed :: bool                \<comment> \<open>\<open>peer.Conn.Close()\<close> has been called\<close>
  events :: "event list"

datatype 'a loop_step = Continue 'a | Return 'a

text \<open>
  One iteration of the \<open>for\<close> loop of \<open>handleConnection\<close>. \<open>DecodeMessage\<close> is
  \<open>json.Unmarshal\<close> into a \<open>Message\<close>, a function of Go's standard library, and is a
  parameter (\<open>None\<close>: it returns an error). A handler's own effects (replies, heartbeats)
  lie outside this state; its call and its error are recorded. One value \<open>now\<close> stands
  for every \<open>time.Now()\<close> of the loop. A read on a socket that
  has been closed fails.
\<close>

definition read_iteration ::
  "(byte list \<Rightarrow> Message option) \<Rightarrow> (MessageType \<rightharpoonup> MessageHandler) \<Rightarrow> time
     \<Rightarrow> reader_state \<Rightarrow> reader_state loop_step" where
  "read_iteration DecodeMessage hs now s =
    (case (if closed s then Inl ErrClosed else io_ReadFull (input s) 4) of
       Inl err \<Rightarrow>
         Return (s\<lparr>input := [],
                   events := events s @ (if err \<noteq> EOF then [ErrorReadingLength] else [])\<rparr>)
     | Inr (lenBuf, rest) \<Rightarrow>
         (let msgLen = BigEndian_Uint32 lenBuf in
          case io_ReadFull rest (unat msgLen) of
            Inl err \<Rightarrow> Return (s\<lparr>input := [], events := events s @ [ErrorReadingMessage]\<rparr>)
          | Inr (msgBuf, rest') \<Rightarrow>
              (case DecodeMessage msgBuf of
                 None \<Rightarrow> Continue (s\<lparr>input := rest',
                                      events := events s @ [ErrorDecodingMessage]\<rparr>)
               | Some msg \<Rightarrow>
                   (let peer' = (peer s)\<lparr>LastActive := now\<rparr> in
                    case hs (Type msg) of
                      Some handler \<Rightarrow>
                        Continue (s\<lparr>peer := peer', input := rest',
                          events := events s @ HandlerCalled (Type msg) msg #
                            (case handler peer' msg of
                               Some e \<Rightarrow> [ErrorHandlingMessage (Type msg)]
                             | None \<Rightarrow> [])\<rparr>)
                    | None \<Rightarrow>
                        Continue (s\<lparr>peer := peer', input := rest',
                          events := events s @ [NoHandlerRegistered (Type msg)]\<rparr>)))))"

lemma read_iteration_consumes:
  "read_iteration DecodeMessage hs now s = Continue s' \<Longrightarrow> length (input s') < length (input s)"
  by (auto simp: read_iteration_def io_ReadFull_def Let_def
           split: if_splits sum.splits prod.splits option.splits)

function read_loop ::
  "(byte list \<Rightarrow> Message option) \<Rightarrow> (MessageType \<rightharpoonup> MessageHandler) \<Rightarrow> time
     \<Rightarrow> reader_state \<Rightarrow> reader_state" where
  "read_loop DecodeMessage hs now s =
    (case read_iteration DecodeMessage hs now s of
       Return s' \<Rightarrow> s'
     | Continue s' \<Rightarrow> read_loop DecodeMessage hs now s')"
  by pat_completeness auto
termination
  by (relation "measure (\<lambda>(d, hs, now, s). length (input s))")
     (auto dest: read_iteration_consumes)

declare read_loop.simps [simp del]

text \<open>
  \<open>handleConnection\<close>: the loop, then the deferred function, which closes the
  connection and marks the peer inactive.
\<close>

definition handleConnection ::
  "(byte list \<Rightarrow> Message option) \<Rightarrow> P2PNetwork \<Rightarrow> time \<Rightarrow> reader_state \<Rightarrow> reader_state" where
  "handleConnection DecodeMessage p now s =
    (let s' = read_loop DecodeMessage (handlers p) now s
     in s'\<lparr>closed := (closed s' \<or> Conn (peer s') \<noteq> None),
           peer := (peer s')\<lparr>IsActive := False\<rparr>\<rparr>)"

text \<open>
  A decoder that accepts the single payload \<open>[1]\<close> and a reader whose input holds an
  undecodable frame followed by a decodable one, used to exercise the read loop.
\<close>

definition example_decode :: "byte list \<Rightarrow> Message option" where
  "example_decode bs = (if bs = [1] then Some \<lparr>Type = 0, Payload = []\<rparr> else None)"

definition example_reader :: reader_state where
  "example_reader =
    \<lparr>peer = \<lparr>Peer.ID = [], Peer.Address = ''10.0.0.1:9000'', Conn = Some 1,
              LastActive = 0, IsActive = True\<rparr>,
     input = frame [0] @ frame [1],
     closed = False,
     events = []\<rparr>"

section \<open>Chunk store (package fs, FileChunker)\<close>

text \<open>
  The operating system as the chunk store meets it. Its three parts are parameters:
  \<^item> \<open>filepath_Join\<close> is Go's \<open>filepath.Join\<close> (standard library);
  \<^item> \<open>resolve\<close> gives the file a path names once the operating system has resolved it
    (cleaning, \<open>..\<close>, links, the working directory): two paths name the same file exactly
    when they resolve to the same value, and files are kept under their resolved path;
  \<^item> \<open>fails\<close> tells which calls of the run fail (a directory in the place of a file, a
    missing parent, permissions, a full disk). Directories are no part of the state:
    they show through the calls that fail because of them.
  \<open>os.Open\<close> and \<open>os.ReadFile\<close> fail as well when the path names no file. An open file
  is read through the file it names, so a write to that file is seen by later reads, as
  through a file descriptor.
\<close>

datatype os_call =
    os_MkdirAll string          \<comment> \<open>\<open>os.MkdirAll(path, 0755)\<close>\<close>
  | os_Open string              \<comment> \<open>\<open>os.Open(path)\<close>\<close>
  | io_Copy string              \<comment> \<open>\<open>io.Copy(hash, file)\<close>, reading the file opened at the path\<close>
  | file_Seek string            \<comment> \<open>\<open>file.Seek(0, 0)\<close>\<close>
  | file_Read string            \<comment> \<open>\<open>file.Read(buffer)\<close>\<close>
  | os_WriteFile string         \<comment> \<open>\<open>os.WriteFile(path, data, 0644)\<close>\<close>
  | os_Create string            \<comment> \<open>\<open>os.Create(path)\<close>\<close>
  | os_ReadFile string          \<comment> \<open>\<open>os.ReadFile(path)\<close>\<close>
  | file_Write string           \<comment> \<open>\<open>output.Write(data)\<close>, on the file created at the path\<close>

record os =
  filepath_Join :: "string \<Rightarrow> string \<Rightarrow> string"
  resolve :: "string \<Rightarrow> string"
  fails :: "os_call \<Rightarrow> bool"

type_synonym filesys = "string \<rightharpoonup> byte list"

definition DefaultChunkSize :: int where
  "DefaultChunkSize = 1024 * 64"

definition MaxChunkSize :: int where
  "MaxChunkSize = 1024 * 1024"

record ChunkInfo =
  ID :: string
  Index :: int
  Size :: int
  FileID :: string
  Location :: string

record FileChunker =
  chunkSize :: int
  chunksDir :: string
  chunksMeta :: "string \<rightharpoonup> ChunkInfo"

definition NewFileChunker :: "os \<Rightarrow> string \<Rightarrow> int \<Rightarrow> error + FileChunker" where
  "NewFileChunker sys dir requested =
    (let size1 = (if requested \<le> 0 then DefaultChunkSize else requested);
         size2 = (if size1 > MaxChunkSize then MaxChunkSize else size1)
     in if fails sys (os_MkdirAll dir) then Inl FailedToCreateChunksDir
        else Inr \<lparr>chunkSize = size2, chunksDir = dir, chunksMeta = Map.empty\<rparr>)"

text \<open>
  The loop of \<open>ChunkFile\<close>. \<open>sha256_hex\<close> stands for \<open>hex.EncodeToString\<close> of the
  SHA-256 digest (Go's standard library) and is a parameter. \<open>file.Read(buffer)\<close> at
  offset \<open>off\<close> returns \<open>io.EOF\<close> at the end of the file and otherwise fills the buffer
  with the next bytes, up to the end of the file. With a buffer of length 0 a read returns
  0 bytes and no error, and the loop never ends.
\<close>

definition file_content :: "filesys \<Rightarrow> string \<Rightarrow> byte list" where
  "file_content files loc = (case files loc of None \<Rightarrow> [] | Some content \<Rightarrow> content)"

function chunk_loop ::
  "os \<Rightarrow> (byte list \<Rightarrow> string) \<Rightarrow> string \<Rightarrow> string \<Rightarrow> string \<Rightarrow> nat \<Rightarrow> nat \<Rightarrow> int
     \<Rightarrow> ChunkInfo list \<Rightarrow> FileChunker \<Rightarrow> filesys
     \<Rightarrow> (error + string \<times> ChunkInfo list) outcome \<times> FileChunker \<times> filesys" where
  "chunk_loop sys sha256_hex filePath fileChunksDir fileID bufLen off index chunks fc files =
    (if bufLen = 0 then (Diverges, fc, files)
     else if fails sys (file_Read filePath) then (Returned (Inl FailedToReadFile), fc, files)
     else case files (resolve sys filePath) of
       None \<Rightarrow> (Returned (Inl FailedToReadFile), fc, files)
     | Some content \<Rightarrow>
         if off \<ge> length content then (Returned (Inr (fileID, chunks)), fc, files)
         else
           (let chunk = take bufLen (drop off content);
                n = length chunk;
                chunkID = sha256_hex chunk;
                chunkInfo = \<lparr>ID = chunkID, Index = index, Size = int n,
                             FileID = fileID, Location = []\<rparr>;
                chunkPath = filepath_Join sys fileChunksDir chunkID
            in if fails sys (os_WriteFile chunkPath)
               then (Returned (Inl FailedToWriteChunk), fc, files)
               else
                 (let files' = files(resolve sys chunkPath \<mapsto> chunk);
                      fc' = fc\<lparr>chunksMeta := (chunksMeta fc)(chunkID \<mapsto> chunkInfo)\<rparr>
                  in chunk_loop sys sha256_hex filePath fileChunksDir fileID bufLen (off + n)
                       (index + 1) (chunks @ [chunkInfo]) fc' files')))"
  by pat_completeness auto
termination
proof (relation "measure (\<lambda>(sys, h, filePath, dir, fid, bufLen, off, index, chunks, fc, files).
                            length (file_content files (resolve sys filePath)) - off)", goal_cases)
  case 1
  show ?case by simp
next
  case (2 sys h filePath dir fid bufLen off index chunks fc files content)
  then show ?case
    by (auto simp: file_content_def)
qed

declare chunk_loop.simps [simp del]

text \<open>
  \<open>ChunkFile\<close>: open the file, hash its content for the file id, rewind, create the
  directory of the file's chunks, allocate the buffer (\<open>make\<close> panics on a negative
  length) and run the loop from offset 0. Every call that can fail has its error return.
\<close>

definition ChunkFile ::
  "os \<Rightarrow> (byte list \<Rightarrow> string) \<Rightarrow> FileChunker \<Rightarrow> filesys \<Rightarrow> string
     \<Rightarrow> (error + string \<times> ChunkInfo list) outcome \<times> FileChunker \<times> filesys" where
  "ChunkFile sys sha256_hex fc files filePath =
    (case (if fails sys (os_Open filePath) then None else files (resolve sys filePath)) of
       None \<Rightarrow> (Returned (Inl FailedToOpenFile), fc, files)
     | Some content \<Rightarrow>
         if fails sys (io_Copy filePath)
         then (Returned (Inl FailedToCalculateFileHash), fc, files)
         else
           (let fileID = sha256_hex content
            in if fails sys (file_Seek filePath)
               then (Returned (Inl FailedToResetFilePointer), fc, files)
               else
                 (let fileChunksDir = filepath_Join sys (chunksDir fc) fileID
                  in if fails sys (os_MkdirAll fileChunksDir)
                     then (Returned (Inl FailedToCreateFileChunksDir), fc, files)
                     else if chunkSize fc < 0
                     then (Panicked MakeSliceLenOutOfRange, fc, files)
                     else chunk_loop sys sha256_hex filePath fileChunksDir fileID
                            (nat (chunkSize fc)) 0 0 [] fc files)))"

text \<open>
  \<open>ReassembleFile\<close>. \<open>os.Create\<close> truncates the file the output path names. The first
  loop stores every chunk at its index in \<open>sortedChunks\<close>, a slice of \<open>len(chunks)\<close> nil
  pointers (\<open>None\<close>), and rejects an index out of range. The second loop reads each
  entry's chunk file and appends it to the output; reading \<open>chunk.ID\<close> through an entry
  that is still nil panics.
\<close>

fun place_chunks :: "ChunkInfo list \<Rightarrow> int \<Rightarrow> ChunkInfo option list \<Rightarrow> error + ChunkInfo option list" where
  "place_chunks [] len sortedChunks = Inr sortedChunks"
| "place_chunks (chunk # rest) len sortedChunks =
    (if Index chunk < 0 \<or> Index chunk \<ge> len then Inl (InvalidChunkIndex (Index chunk))
     else place_chunks rest len (sortedChunks[nat (Index chunk) := Some chunk]))"

fun write_chunks ::
  "os \<Rightarrow> string \<Rightarrow> string \<Rightarrow> ChunkInfo option list \<Rightarrow> filesys
     \<Rightarrow> error option outcome \<times> filesys" where
  "write_chunks sys fileChunksDir outputPath [] files = (Returned None, files)"
| "write_chunks sys fileChunksDir outputPath (None # rest) files =
    (Panicked NilPointerDereference, files)"
| "write_chunks sys fileChunksDir outputPath (Some chunk # rest) files =
    (let chunkPath = filepath_Join sys fileChunksDir (ChunkInfo.ID chunk)
     in case (if fails sys (os_ReadFile chunkPath) then None
              else files (resolve sys chunkPath)) of
          None \<Rightarrow> (Returned (Some (FailedToReadChunk (ChunkInfo.ID chunk))), files)
        | Some chunkData \<Rightarrow>
            if fails sys (file_Write outputPath)
            then (Returned (Some FailedToWriteOutputFile), files)
            else write_chunks sys fileChunksDir outputPath rest
                   (files(resolve sys outputPath \<mapsto>
                            file_content files (resolve sys outputPath) @ chunkData)))"

definition ReassembleFile ::
  "os \<Rightarrow> FileChunker \<Rightarrow> filesys \<Rightarrow> string \<Rightarrow> ChunkInfo list \<Rightarrow> string
     \<Rightarrow> error option outcome \<times> filesys" where
  "ReassembleFile sys fc files fileID chunks outputPath =
    (if fails sys (os_Create outputPath)
     then (Returned (Some FailedToCreateOutputFile), files)
     else
       (let files1 = files(resolve sys outputPath \<mapsto> [])
        in case place_chunks chunks (int (length chunks)) (replicate (length chunks) None) of
             Inl err \<Rightarrow> (Returned (Some err), files1)
           | Inr sortedChunks \<Rightarrow>
               write_chunks sys (filepath_Join sys (chunksDir fc) fileID) outputPath
                 sortedChunks files1))"

text \<open>
  The \<open>ChunkInfo\<close> records the loop of \<open>ChunkFile\<close> builds for the chunk contents
  \<open>ds\<close>, the first of them at index \<open>index\<close>.
\<close>

fun chunk_infos :: "(byte list \<Rightarrow> string) \<Rightarrow> string \<Rightarrow> int \<Rightarrow> byte list list \<Rightarrow> ChunkInfo list" where
  "chunk_infos H fid index [] = []"
| "chunk_infos H fid index (d # ds) =
     \<lparr>ID = H d, Index = index, Size = int (length d), FileID = fid, Location = []\<rparr>
       # chunk_infos H fid (index + 1) ds"

text \<open>
  Test data. \<open>example_os\<close> is an operating system in which no call fails, over clean
  absolute paths: every path names the file of that name, and joining a clean directory
  and a plain name puts the separator between them. \<open>alias_os\<close> differs in that a path
  through \<open>/out/..\<close> names the file at the rest of the path. With them come an injective
  stand-in for the digest, a file of five bytes, and a chunker and a chunk directory
  that holds two chunks.
\<close>

definition example_os :: os where
  "example_os =
    \<lparr>filepath_Join = (\<lambda>dir name. dir @ ''/'' @ name),
     resolve = (\<lambda>path. path),
     fails = (\<lambda>c. False)\<rparr>"

definition alias_os :: os where
  "alias_os =
    example_os\<lparr>resolve := (\<lambda>path. if take 7 path = ''/out/..'' then drop 7 path else path)\<rparr>"

definition example_digest :: "byte list \<Rightarrow> string" where
  "example_digest bs = map (\<lambda>b. char_of (unat b)) bs"

definition example_files :: filesys where
  "example_files = [''/data/f'' \<mapsto> [1, 2, 3, 4, 5]]"

definition example_chunker :: FileChunker where
  "example_chunker = \<lparr>chunkSize = 2, chunksDir = ''/chunks'', chunksMeta = Map.empty\<rparr>"

definition example_chunk_files :: filesys where
  "example_chunk_files = [''/chunks/f1/c0'' \<mapsto> [1, 2], ''/chunks/f1/c1'' \<mapsto> [3]]"

section \<open>Properties of the node registry\<close>

subsection \<open>The storage bound\<close>

text \<open>
  Heartbeat, status update, storage update and removal keep the storage bound of every
  node. Registration keeps it when the new \<open>storageMax\<close> is at least the usage the node
  already has (at least 0 for a new node); \<open>RegisterNode\<close> itself does not check this.
\<close>

lemma storage_inv_New: "storage_inv NewNodeManager"
  by (simp add: storage_inv_def NewNodeManager_def)

lemma storage_inv_Heartbeat:
  "storage_inv nm \<Longrightarrow> storage_inv (snd (HeartbeatNode now nm nid))"
  by (auto simp: storage_inv_def HeartbeatNode_def node_inv_def split: option.splits)

lemma storage_inv_UpdateNodeStatus:
  "storage_inv nm \<Longrightarrow> storage_inv (snd (UpdateNodeStatus now nm nid status))"
  by (auto simp: storage_inv_def UpdateNodeStatus_def node_inv_def split: option.splits)

lemma storage_inv_UpdateNodeStorage:
  "storage_inv nm \<Longrightarrow> storage_inv (snd (UpdateNodeStorage now nm nid used))"
  by (auto simp: storage_inv_def UpdateNodeStorage_def node_inv_def split: option.splits)

lemma storage_inv_RemoveNode:
  "storage_inv nm \<Longrightarrow> storage_inv (snd (RemoveNode nm nid))"
  by (auto simp: storage_inv_def RemoveNode_def split: option.splits if_splits)

lemma storage_inv_RegisterNode:
  assumes "storage_inv nm"
    and "case nodes nm nid of None \<Rightarrow> 0 \<le> sint storageMax
         | Some n \<Rightarrow> sint (StorageUsed n) \<le> sint storageMax"
  shows "storage_inv (snd (RegisterNode url_Parse now nm nid address storageMax))"
  using assms
  by (auto simp: storage_inv_def RegisterNode_def node_inv_def Let_def
           split: option.splits if_splits)

text \<open>
  Claim C3 states that every registry operation keeps \<open>0 \<le> storageUsed \<le> storageMax\<close>
  for every node, re-registration with a new \<open>storageMax\<close> included. The code does not:
  a node registered with capacity 100 and brought to a usage of 80 (the bound holds) is
  registered again with capacity 50; the call succeeds, keeps the usage and stores the
  new capacity, and the node has \<open>storageUsed = 80 > storageMax = 50\<close>.
\<close>

theorem reregister_breaks_storage_bound:
  "(let url_Parse = (\<lambda>a. True);
        (r1, nm1) = RegisterNode url_Parse 1 NewNodeManager ''n1'' ''http://a'' 100;
        (r2, nm2) = UpdateNodeStorage 2 nm1 ''n1'' 80;
        (r3, nm3) = RegisterNode url_Parse 3 nm2 ''n1'' ''http://a'' 50
    in r2 = None
     \<and> map_option node_inv (nodes nm2 ''n1'') = Some True
     \<and> r3 = Inr \<lparr>Node.ID = ''n1'', Node.Address = ''http://a'', Status = ''active'',
                  StorageUsed = 80, StorageMax = 50, LastSeen = 3\<rparr>
     \<and> map_option node_inv (nodes nm3 ''n1'') = Some False)"
  by (simp add: RegisterNode_def UpdateNodeStorage_def NewNodeManager_def node_inv_def Let_def)

text \<open>A first registration with a negative capacity breaks the bound as well.\<close>

lemma register_negative_max_breaks_storage_bound:
  "map_option node_inv
     (nodes (snd (RegisterNode (\<lambda>a. True) 1 NewNodeManager ''n1'' ''http://a'' (- 1))) ''n1'')
    = Some False"
  by (simp add: RegisterNode_def NewNodeManager_def node_inv_def Let_def)

subsection \<open>Registration\<close>

text \<open>
  Claim C6: for every address that is not well-formed (\<open>url.Parse\<close> returns an error),
  \<open>RegisterNode\<close> fails with the InvalidInput error "invalid node address" and leaves the
  registry as it was, so no node is created.
\<close>

theorem register_invalid_address:
  assumes "\<not> url_Parse address"
  shows "RegisterNode url_Parse now nm nid address storageMax = (Inl InvalidNodeAddress, nm)
       \<and> kind InvalidNodeAddress = InvalidInput"
  using assms by (simp add: RegisterNode_def)

theorem register_invalid_address_witness:
  "\<not> (\<lambda>a. a \<noteq> ''%zz'') ''%zz''
   \<and> RegisterNode (\<lambda>a. a \<noteq> ''%zz'') 7 NewNodeManager ''n1'' ''%zz'' 100
       = (Inl InvalidNodeAddress, NewNodeManager)
   \<and> nodes NewNodeManager = Map.empty"
  using register_invalid_address [of "\<lambda>a. a \<noteq> ''%zz''" "''%zz''" 7 NewNodeManager "''n1''" 100]
  by (simp add: NewNodeManager_def)

text \<open>
  Claim C4: registering \<open>nid\<close> at \<open>addrA\<close> and then at \<open>addrB\<close> (both well-formed and
  not bound to another id) succeeds twice; the second call returns the node stored under
  \<open>nid\<close>, now with address \<open>addrB\<close>, adds no key to the node map and changes no other
  node. Registering a different id at \<open>addrB\<close> afterwards fails with the Conflict error
  and changes nothing.
\<close>

theorem reregister_updates_address:
  assumes "url_Parse addrA" "url_Parse addrB"
    and "nodeAddrs nm addrA = None \<or> nodeAddrs nm addrA = Some nid"
    and "nodeAddrs nm addrB = None \<or> nodeAddrs nm addrB = Some nid"
    and "other \<noteq> nid"
  shows "(let (r1, nm1) = RegisterNode url_Parse t1 nm nid addrA 100;
              (r2, nm2) = RegisterNode url_Parse t2 nm1 nid addrB 100;
              (r3, nm3) = RegisterNode url_Parse t3 nm2 other addrB storageMax
          in map_option Inr (nodes nm1 nid) = Some r1
           \<and> map_option Node.Address (nodes nm1 nid) = Some addrA
           \<and> map_option Inr (nodes nm2 nid) = Some r2
           \<and> map_option Node.Address (nodes nm2 nid) = Some addrB
           \<and> map_option Node.ID (nodes nm2 nid) = map_option Node.ID (nodes nm1 nid)
           \<and> dom (nodes nm2) = dom (nodes nm1)
           \<and> dom (nodes nm1) = insert nid (dom (nodes nm))
           \<and> (\<forall>k. k \<noteq> nid \<longrightarrow> nodes nm2 k = nodes nm k)
           \<and> r3 = Inl AddressAlreadyRegistered \<and> nm3 = nm2
           \<and> kind AddressAlreadyRegistered = Conflict)"
proof -
  have a: "\<not> (case nodeAddrs nm addrA of None \<Rightarrow> False | Some existingID \<Rightarrow> existingID \<noteq> nid)"
    using assms(3) by auto
  have b: "\<not> (case ((nodeAddrs nm)(addrA \<mapsto> nid)) addrB of None \<Rightarrow> False
               | Some existingID \<Rightarrow> existingID \<noteq> nid)"
    using assms(4) by auto
  show ?thesis
    using assms(1,2,5) a b
    by (simp add: RegisterNode_def Let_def split: option.split)
qed

theorem reregister_updates_address_witness:
  "''n2'' \<noteq> ''n1'' \<and> ''http://a'' \<noteq> ''http://b'' \<and>
   (let url_Parse = (\<lambda>a. True);
        (r1, nm1) = RegisterNode url_Parse 1 NewNodeManager ''n1'' ''http://a'' 100;
        (r2, nm2) = RegisterNode url_Parse 2 nm1 ''n1'' ''http://b'' 100;
        (r3, nm3) = RegisterNode url_Parse 3 nm2 ''n2'' ''http://b'' 100
    in dom (nodes nm2) = {''n1''}
     \<and> map_option Node.Address (nodes nm2 ''n1'') = Some ''http://b''
     \<and> r3 = Inl AddressAlreadyRegistered)"
  using reregister_updates_address [of "\<lambda>a. True" "''http://a''" "''http://b''" NewNodeManager
      "''n1''" "''n2''" 1 2 3 100]
  by (simp add: RegisterNode_def NewNodeManager_def Let_def)

text \<open>
  Claim C9: after \<open>nid\<close> is registered at \<open>addrA\<close> and again at \<open>addrB\<close>, the address
  index still binds \<open>addrA\<close> to \<open>nid\<close>; \<open>RemoveNode\<close> deletes the node and the binding
  of its current address \<open>addrB\<close> only. The registry then holds no node, and yet
  registering another id at \<open>addrA\<close> fails with the Conflict error.
\<close>

theorem stale_address_blocks_registration:
  assumes "url_Parse addrA" "url_Parse addrB" "addrA \<noteq> addrB" "other \<noteq> nid"
  shows "(let (r1, nm1) = RegisterNode url_Parse t1 NewNodeManager nid addrA max1;
              (r2, nm2) = RegisterNode url_Parse t2 nm1 nid addrB max2;
              (r3, nm3) = RemoveNode nm2 nid;
              (r4, nm4) = RegisterNode url_Parse t4 nm3 other addrA max4
          in nodeAddrs nm1 addrA = Some nid
           \<and> map_option Node.Address (nodes nm2 nid) = Some addrB
           \<and> nodeAddrs nm2 addrA = Some nid \<and> nodeAddrs nm2 addrB = Some nid
           \<and> r3 = None
           \<and> nodes nm3 = Map.empty
           \<and> nodeAddrs nm3 addrB = None \<and> nodeAddrs nm3 addrA = Some nid
           \<and> r4 = Inl AddressAlreadyRegistered \<and> nm4 = nm3
           \<and> kind AddressAlreadyRegistered = Conflict)"
  using assms
  by (simp add: RegisterNode_def RemoveNode_def NewNodeManager_def Let_def)

theorem stale_address_blocks_registration_witness:
  "''http://a'' \<noteq> ''http://b'' \<and> ''n2'' \<noteq> ''n1'' \<and>
   (let url_Parse = (\<lambda>a. True);
        (r1, nm1) = RegisterNode url_Parse 1 NewNodeManager ''n1'' ''http://a'' 100;
        (r2, nm2) = RegisterNode url_Parse 2 nm1 ''n1'' ''http://b'' 100;
        (r3, nm3) = RemoveNode nm2 ''n1'';
        (r4, nm4) = RegisterNode url_Parse 4 nm3 ''n2'' ''http://a'' 100
    in nodes nm3 = Map.empty \<and> r4 = Inl AddressAlreadyRegistered)"
  using stale_address_blocks_registration [of "\<lambda>a. True" "''http://a''" "''http://b''"
      "''n2''" "''n1''" 1 100 2 100 4 100]
  by (simp add: RegisterNode_def RemoveNode_def NewNodeManager_def Let_def)

section \<open>Properties of the placement selector\<close>

subsection \<open>The nested loops sort by descending free space\<close>

abbreviation desc :: "Node list \<Rightarrow> bool" where
  "desc \<equiv> sorted_wrt (\<lambda>a b. avail b \<le> avail a)"

lemma sort_inner_unfold:
  "j < length xs \<Longrightarrow>
   sort_inner i j xs =
     sort_inner i (j + 1)
       (if avail (xs ! j) > avail (xs ! i) then xs[i := xs ! j, j := xs ! i] else xs)"
  "\<not> j < length xs \<Longrightarrow> sort_inner i j xs = xs"
  by (subst sort_inner.simps, simp add: Let_def)+

lemma mset_sort_inner: "i < j \<Longrightarrow> j \<le> length xs \<Longrightarrow> mset (sort_inner i j xs) = mset xs"
proof (induction i j xs rule: sort_inner.induct)
  case (1 i j xs)
  show ?case
  proof (cases "j < length xs")
    case True
    let ?xs' = "if avail (xs ! j) > avail (xs ! i) then xs[i := xs ! j, j := xs ! i] else xs"
    have "mset (sort_inner i (j + 1) ?xs') = mset ?xs'"
      using "1.IH" [OF True refl refl] "1.prems" True by simp
    moreover have "mset ?xs' = mset xs"
      using True "1.prems" by (simp add: mset_swap)
    ultimately show ?thesis using True by (simp add: sort_inner_unfold)
  next
    case False
    then show ?thesis by (simp add: sort_inner_unfold)
  qed
qed

lemma take_sort_inner: "i < j \<Longrightarrow> take i (sort_inner i j xs) = take i xs"
proof (induction i j xs rule: sort_inner.induct)
  case (1 i j xs)
  show ?case
  proof (cases "j < length xs")
    case True
    let ?xs' = "if avail (xs ! j) > avail (xs ! i) then xs[i := xs ! j, j := xs ! i] else xs"
    have "take i (sort_inner i (j + 1) ?xs') = take i ?xs'"
      using "1.IH" [OF True refl refl] "1.prems" by simp
    moreover have "take i ?xs' = take i xs"
      using "1.prems" by simp
    ultimately show ?thesis using True by (simp add: sort_inner_unfold)
  next
    case False
    then show ?thesis by (simp add: sort_inner_unfold)
  qed
qed

text \<open>
  When the inner loop has passed every \<open>j\<close>, the node at \<open>i\<close> has at least as much free
  space as every node after it.
\<close>

lemma max_sort_inner:
  "i < j \<Longrightarrow> j \<le> length xs \<Longrightarrow> \<forall>k. i < k \<and> k < j \<longrightarrow> avail (xs ! k) \<le> avail (xs ! i) \<Longrightarrow>
   i < k \<Longrightarrow> k < length xs \<Longrightarrow> avail (sort_inner i j xs ! k) \<le> avail (sort_inner i j xs ! i)"
proof (induction i j xs rule: sort_inner.induct)
  case (1 i j xs)
  show ?case
  proof (cases "j < length xs")
    case True
    let ?xs' = "if avail (xs ! j) > avail (xs ! i) then xs[i := xs ! j, j := xs ! i] else xs"
    have inv: "\<forall>k. i < k \<and> k < j + 1 \<longrightarrow> avail (?xs' ! k) \<le> avail (?xs' ! i)"
    proof (intro allI impI)
      fix k assume k: "i < k \<and> k < j + 1"
      show "avail (?xs' ! k) \<le> avail (?xs' ! i)"
      proof (cases "k = j")
        case True
        with \<open>j < length xs\<close> "1.prems"(1) show ?thesis by (auto simp: nth_list_update)
      next
        case False
        with k have "k < j" by simp
        with k "1.prems"(3) have "avail (xs ! k) \<le> avail (xs ! i)" by simp
        with \<open>k < j\<close> k True "1.prems"(1) show ?thesis by (auto simp: nth_list_update)
      qed
    qed
    have "avail (sort_inner i (j + 1) ?xs' ! k) \<le> avail (sort_inner i (j + 1) ?xs' ! i)"
      apply (rule "1.IH" [OF True refl refl])
      using "1.prems" True inv by simp_all
    then show ?thesis using True by (simp add: sort_inner_unfold)
  next
    case False
    with "1.prems" have "j = length xs" by simp
    with "1.prems" False show ?thesis by (simp add: sort_inner_unfold)
  qed
qed

lemma sort_outer_unfold:
  "int i < int (length xs) - 1 \<Longrightarrow> sort_outer i xs = sort_outer (i + 1) (sort_inner i (i + 1) xs)"
  "\<not> int i < int (length xs) - 1 \<Longrightarrow> sort_outer i xs = xs"
  by (subst sort_outer.simps, simp)+

lemma mset_sort_outer: "mset (sort_outer i xs) = mset xs"
proof (induction i xs rule: sort_outer.induct)
  case (1 i xs)
  show ?case
  proof (cases "int i < int (length xs) - 1")
    case True
    then show ?thesis using "1.IH" [OF True] by (simp add: sort_outer_unfold mset_sort_inner)
  next
    case False
    then show ?thesis by (simp add: sort_outer_unfold)
  qed
qed

text \<open>
  The outer loop keeps the first \<open>i\<close> nodes in descending order and each of them at
  least as free as every later node.
\<close>

lemma desc_sort_outer:
  "desc (take i xs) \<Longrightarrow> \<forall>a\<in>set (take i xs). \<forall>b\<in>set (drop i xs). avail b \<le> avail a \<Longrightarrow>
   desc (sort_outer i xs)"
proof (induction i xs rule: sort_outer.induct)
  case (1 i xs)
  show ?case
  proof (cases "int i < int (length xs) - 1")
    case True
    define ys where "ys = sort_inner i (i + 1) xs"
    have len: "length ys = length xs" by (simp add: ys_def)
    have i: "i < length xs" "i + 1 \<le> length xs" using True by auto
    have tk: "take i ys = take i xs" by (simp add: ys_def take_sort_inner)
    have ms: "mset ys = mset xs" using i by (simp add: ys_def mset_sort_inner)
    have "mset (take i ys @ drop i ys) = mset (take i xs @ drop i xs)"
      using ms by simp
    then have "mset (take i ys) + mset (drop i ys) = mset (take i xs) + mset (drop i xs)"
      by (simp only: mset_append)
    then have msd: "mset (drop i ys) = mset (drop i xs)" using tk by simp
    then have sd: "set (drop i ys) = set (drop i xs)" by (rule mset_eq_setD)
    have mx: "\<And>k. i < k \<Longrightarrow> k < length xs \<Longrightarrow> avail (ys ! k) \<le> avail (ys ! i)"
      unfolding ys_def using i by (intro max_sort_inner) auto
    have tk1: "take (Suc i) ys = take i xs @ [ys ! i]"
      using i len tk by (simp add: take_Suc_conv_app_nth)
    have dr: "drop i ys = ys ! i # drop (Suc i) ys"
      using i len by (simp add: Cons_nth_drop_Suc)
    have yi: "ys ! i \<in> set (drop i xs)"
      using sd dr by auto
    have d1: "desc (take (Suc i) ys)"
      using "1.prems" yi by (auto simp: tk1 sorted_wrt_append)
    have d2: "\<forall>a\<in>set (take (Suc i) ys). \<forall>b\<in>set (drop (Suc i) ys). avail b \<le> avail a"
    proof (intro ballI)
      fix a b assume a: "a \<in> set (take (Suc i) ys)" and b: "b \<in> set (drop (Suc i) ys)"
      from b obtain m where m: "m < length (drop (Suc i) ys)" "b = drop (Suc i) ys ! m"
        by (auto simp: in_set_conv_nth)
      then have bk: "b = ys ! (Suc i + m)" "Suc i + m < length xs" using len by auto
      have bi: "avail b \<le> avail (ys ! i)" using mx [of "Suc i + m"] bk by simp
      have "b \<in> set (drop i ys)" using b dr by simp
      then have bd: "b \<in> set (drop i xs)" using sd by simp
      from a have "a \<in> set (take i xs) \<or> a = ys ! i" by (auto simp: tk1)
      then show "avail b \<le> avail a" using bi bd "1.prems"(2) by auto
    qed
    have "desc (sort_outer (i + 1) ys)"
      using "1.IH" [OF True] d1 d2 by (simp add: ys_def)
    then show ?thesis using True by (simp add: sort_outer_unfold ys_def)
  next
    case False
    then have le: "length xs \<le> i + 1" by simp
    have "desc (take i xs @ drop i xs)"
    proof (cases "drop i xs")
      case Nil
      then show ?thesis using "1.prems" by simp
    next
      case (Cons b bs)
      have "length (drop i xs) \<le> 1" using le by simp
      with Cons have "bs = []" by simp
      with Cons "1.prems" show ?thesis by (auto simp: sorted_wrt_append)
    qed
    then show ?thesis using False by (simp add: sort_outer_unfold)
  qed
qed

lemma sort_outer_sorts: "desc (sort_outer 0 xs)" "mset (sort_outer 0 xs) = mset xs"
  by (simp_all add: desc_sort_outer mset_sort_outer)

subsection \<open>The selection\<close>

lemma mset_range_nodes:
  "set order \<subseteq> dom (nodes nm) \<Longrightarrow>
   mset (range_nodes nm order) = image_mset (\<lambda>k. the (nodes nm k)) (mset order)"
  by (induction order) (auto simp: range_nodes_def map_filter_simps)

lemma set_range_nodes:
  "set order = dom (nodes nm) \<Longrightarrow> set (range_nodes nm order) = ran (nodes nm)"
  by (force simp: range_nodes_def map_filter_def ran_def dom_def)

lemma GetOptimalStorageNodes_ranked:
  assumes "0 \<le> replicaCount"
  shows "\<exists>ranked.
      GetOptimalStorageNodes nm order fileSize replicaCount =
        Returned (map Node.ID (take (nat (min replicaCount (int (length ranked)))) ranked))
    \<and> mset ranked = mset (filter (eligible fileSize) (range_nodes nm order))
    \<and> desc ranked"
proof -
  let ?el = "filter (eligible fileSize) (range_nodes nm order)"
  let ?r = "sort_outer 0 ?el"
  have "min_int replicaCount (int (length ?r)) = min replicaCount (int (length ?r))"
    by (simp add: min_int_def min_def)
  moreover have "0 \<le> min replicaCount (int (length ?r))" using assms by simp
  ultimately have "GetOptimalStorageNodes nm order fileSize replicaCount =
        Returned (map Node.ID (take (nat (min replicaCount (int (length ?r)))) ?r))"
    by (simp add: GetOptimalStorageNodes_def Let_def)
  then show ?thesis using sort_outer_sorts [of ?el] by blast
qed

lemma desc_pair:
  assumes "mset ranked = {#a, b#}" "desc ranked" "avail b < avail a"
  shows "ranked = [a, b]"
proof -
  have "size (mset ranked) = 2" using assms(1) by simp
  then have "length ranked = 2" by simp
  then obtain x y where r: "ranked = [x, y]"
    by (metis (no_types, lifting) One_nat_def Suc_1 length_0_conv length_Suc_conv)
  with assms(1) have "(x = a \<and> y = b) \<or> (x = b \<and> y = a)"
    by (auto simp: add_eq_conv_ex)
  with assms(2,3) r show ?thesis by auto
qed

lemma example_eligible:
  assumes "distinct order" "set order = {''n1'', ''n2'', ''n3'', ''n4''}"
  shows "mset (filter (eligible 1000) (range_nodes example_registry order)) =
         {#\<lparr>Node.ID = ''n1'', Node.Address = ''http://a'', Status = ''active'',
            StorageUsed = 0, StorageMax = 5000, LastSeen = 0\<rparr>,
           \<lparr>Node.ID = ''n4'', Node.Address = ''http://d'', Status = ''active'',
            StorageUsed = 0, StorageMax = 3000, LastSeen = 0\<rparr>#}"
proof -
  have "mset order = mset_set {''n1'', ''n2'', ''n3'', ''n4''}"
    using assms by (metis mset_set_set)
  then have mo: "mset order = {#''n1'', ''n2'', ''n3'', ''n4''#}" by simp
  have "set order \<subseteq> dom (nodes example_registry)"
    using assms by (simp add: example_registry_def)
  then show ?thesis
    by (simp add: mset_range_nodes mo eligible_def avail_def example_registry_def)
qed

text \<open>
  Claim C5: for an iteration \<open>order\<close> over the node map and a replica count of at least
  0, \<open>GetOptimalStorageNodes\<close> returns the ids of the first
  \<open>min(replicaCount, eligibleCount)\<close> nodes of a list \<open>ranked\<close> that holds exactly the
  nodes with status "active" and free space \<open>storageMax - storageUsed \<ge> fileSize\<close>, each
  as often as the listing of the registry does, in descending order of free space.
\<close>

theorem select_ranks_eligible_by_free_space:
  assumes "distinct order" "set order = dom (nodes nm)" "0 \<le> replicaCount"
  shows "\<exists>ranked.
      GetOptimalStorageNodes nm order fileSize replicaCount =
        Returned (map Node.ID (take (nat (min replicaCount (int (length ranked)))) ranked))
    \<and> mset ranked = mset (filter (eligible fileSize) (ListNodes nm order))
    \<and> set ranked = {n \<in> ran (nodes nm). Status n = ''active''
                        \<and> sint fileSize \<le> sint (StorageMax n - StorageUsed n)}
    \<and> sorted_wrt (\<lambda>a b. avail b \<le> avail a) ranked"
proof -
  obtain ranked where r:
    "GetOptimalStorageNodes nm order fileSize replicaCount =
        Returned (map Node.ID (take (nat (min replicaCount (int (length ranked)))) ranked))"
    "mset ranked = mset (filter (eligible fileSize) (range_nodes nm order))"
    "desc ranked"
    using GetOptimalStorageNodes_ranked [OF assms(3)] by blast
  have "set ranked = set (filter (eligible fileSize) (range_nodes nm order))"
    using r(2) by (rule mset_eq_setD)
  then have "set ranked = {n \<in> ran (nodes nm). Status n = ''active''
                        \<and> sint fileSize \<le> sint (StorageMax n - StorageUsed n)}"
    using set_range_nodes [OF assms(2)] by (auto simp: eligible_def avail_def)
  with r show ?thesis by (auto simp: ListNodes_def)
qed

text \<open>
  The example of the claim: size 1000 and 3 replicas over the nodes with 5000 (active),
  0 (active), 2000 (failed) and 3000 (active) bytes free give the node with 5000 and then
  the node with 3000.
\<close>

theorem select_ranks_eligible_by_free_space_witness:
  "distinct [''n1'', ''n2'', ''n3'', ''n4'']
   \<and> set [''n1'', ''n2'', ''n3'', ''n4''] = dom (nodes example_registry)
   \<and> (0 :: int) \<le> 3
   \<and> GetOptimalStorageNodes example_registry [''n1'', ''n2'', ''n3'', ''n4''] 1000 3
       = Returned [''n1'', ''n4'']"
proof -
  let ?order = "[''n1'', ''n2'', ''n3'', ''n4'']"
  have d: "distinct ?order" by simp
  have s: "set ?order = dom (nodes example_registry)"
    by (auto simp: example_registry_def)
  have s': "set ?order = {''n1'', ''n2'', ''n3'', ''n4''}" by simp
  obtain ranked where r:
    "GetOptimalStorageNodes example_registry ?order 1000 3 =
        Returned (map Node.ID (take (nat (min 3 (int (length ranked)))) ranked))"
    "mset ranked = mset (filter (eligible 1000) (ListNodes example_registry ?order))"
    "sorted_wrt (\<lambda>a b. avail b \<le> avail a) ranked"
    using select_ranks_eligible_by_free_space [OF d s, of 3 1000] by auto
  have "ranked = [\<lparr>Node.ID = ''n1'', Node.Address = ''http://a'', Status = ''active'',
            StorageUsed = 0, StorageMax = 5000, LastSeen = 0\<rparr>,
           \<lparr>Node.ID = ''n4'', Node.Address = ''http://d'', Status = ''active'',
            StorageUsed = 0, StorageMax = 3000, LastSeen = 0\<rparr>]"
    using r(2,3) example_eligible [OF d s']
    by (intro desc_pair) (simp_all add: avail_def ListNodes_def)
  then show ?thesis using r(1) d s by simp
qed

text \<open>The same holds for every order in which Go may iterate over the four nodes.\<close>

lemma example_any_order:
  assumes "distinct order" "set order = {''n1'', ''n2'', ''n3'', ''n4''}"
  shows "GetOptimalStorageNodes example_registry order 1000 3 = Returned [''n1'', ''n4'']"
proof -
  obtain ranked where r: "GetOptimalStorageNodes example_registry order 1000 3 =
        Returned (map Node.ID (take (nat (min 3 (int (length ranked)))) ranked))"
     "mset ranked = mset (filter (eligible 1000) (range_nodes example_registry order))"
     "desc ranked"
    using GetOptimalStorageNodes_ranked [of 3 example_registry order 1000] by auto
  have "ranked = [\<lparr>Node.ID = ''n1'', Node.Address = ''http://a'', Status = ''active'',
            StorageUsed = 0, StorageMax = 5000, LastSeen = 0\<rparr>,
           \<lparr>Node.ID = ''n4'', Node.Address = ''http://d'', Status = ''active'',
            StorageUsed = 0, StorageMax = 3000, LastSeen = 0\<rparr>]"
    using r(2,3) example_eligible [OF assms] by (intro desc_pair) (simp_all add: avail_def)
  then show ?thesis using r(1) by simp
qed

text \<open>
  Claim C10: with a negative replica count the call panics in \<open>make\<close>, whatever the
  registry holds; with a replica count of at least 0 it returns a list.
\<close>

theorem select_negative_replicas_panics:
  "(replicaCount < 0 \<longrightarrow>
      GetOptimalStorageNodes nm order fileSize replicaCount = Panicked MakeSliceLenOutOfRange)
   \<and> (0 \<le> replicaCount \<longrightarrow>
      (\<exists>ids. GetOptimalStorageNodes nm order fileSize replicaCount = Returned ids))"
  by (simp add: GetOptimalStorageNodes_def Let_def min_int_def)

theorem select_negative_replicas_panics_witness:
  "(- 1 :: int) < 0
   \<and> GetOptimalStorageNodes example_registry [''n1'', ''n2'', ''n3'', ''n4''] 1000 (- 1)
       = Panicked MakeSliceLenOutOfRange
   \<and> min_int (- 1) 2 = - 1"
  using select_negative_replicas_panics
          [of "- 1" example_registry "[''n1'', ''n2'', ''n3'', ''n4'']" 1000]
  by (simp add: min_int_def)

section \<open>Properties of the overlay\<close>

lemma set_range_peers: "pr \<in> set (range_peers p order) \<Longrightarrow> \<exists>a. peers p a = Some pr"
  by (auto simp: range_peers_def map_filter_def)

text \<open>
  Claim C8: when no peer of the map has the id \<open>peerID\<close>, \<open>DisconnectPeer\<close> returns the
  NotFound error "peer ... not found" and the network, with its peer map and every
  socket, is exactly as before.
\<close>

theorem disconnect_unknown_peer:
  assumes "\<forall>a pr. peers p a = Some pr \<longrightarrow> Peer.ID pr \<noteq> peerID"
  shows "DisconnectPeer order p peerID = (Some (PeerNotFound peerID), p)
       \<and> kind (PeerNotFound peerID) = NotFound"
proof -
  have "\<not> (\<exists>x. x \<in> set (range_peers p order) \<and> Peer.ID x = peerID)"
    using assms set_range_peers by blast
  then have "find (\<lambda>pr. Peer.ID pr = peerID) (range_peers p order) = None"
    by (simp add: find_None_iff)
  then show ?thesis by (simp add: DisconnectPeer_def)
qed

theorem disconnect_unknown_peer_witness:
  "DisconnectPeer [''10.0.0.2:9000'', ''10.0.0.1:9000''] example_network ''p3''
     = (Some (PeerNotFound ''p3''), example_network)
   \<and> dom (peers example_network) = {''10.0.0.1:9000'', ''10.0.0.2:9000''}"
proof -
  have "\<forall>a pr. peers example_network a = Some pr \<longrightarrow> Peer.ID pr \<noteq> ''p3''"
    by (auto simp: example_network_def split: if_splits)
  from disconnect_unknown_peer [OF this] show ?thesis
    by (auto simp: example_network_def)
qed

text \<open>A known peer, for comparison, is closed and removed.\<close>

lemma disconnect_known_peer_example:
  "DisconnectPeer [''10.0.0.2:9000'', ''10.0.0.1:9000''] example_network ''p1''
     = (None, example_network\<lparr>closedConns := {1},
                               peers := (peers example_network)(''10.0.0.1:9000'' := None)\<rparr>)"
  by (simp add: DisconnectPeer_def range_peers_def map_filter_def example_network_def)


subsection \<open>The read loop\<close>

lemma Uint32_PutUint32: "BigEndian_Uint32 (BigEndian_PutUint32 v) = v"
  unfolding BigEndian_PutUint32_def BigEndian_Uint32.simps
proof (rule bit_word_eqI)
  fix n assume "n < LENGTH(32)"
  then have n: "n < 32" by simp
  consider "n < 8" | "8 \<le> n" "n < 16" | "16 \<le> n" "n < 24" | "24 \<le> n" by linarith
  then show "bit (or (ucast (ucast v :: byte))
               (or (push_bit 8 (ucast (ucast (drop_bit 8 v) :: byte)))
               (or (push_bit 16 (ucast (ucast (drop_bit 16 v) :: byte)))
                   (push_bit 24 (ucast (ucast (drop_bit 24 v) :: byte))))) :: uint32) n = bit v n"
    using n by cases (auto simp: bit_simps)
qed

lemma length_PutUint32 [simp]: "length (BigEndian_PutUint32 v) = 4"
  by (simp add: BigEndian_PutUint32_def)

lemma io_ReadFull_frame:
  assumes "length data < 2 ^ 32"
  shows "io_ReadFull (frame data @ rest) 4 = Inr (BigEndian_PutUint32 (word_of_nat (length data)), data @ rest)"
    and "io_ReadFull (data @ rest) (unat (BigEndian_Uint32 (BigEndian_PutUint32 (word_of_nat (length data))))) = Inr (data, rest)"
proof -
  show "io_ReadFull (frame data @ rest) 4 = Inr (BigEndian_PutUint32 (word_of_nat (length data)), data @ rest)"
    by (simp add: io_ReadFull_def frame_def)
  have "unat (word_of_nat (length data) :: uint32) = length data"
    using assms by (simp add: unat_of_nat)
  then show "io_ReadFull (data @ rest) (unat (BigEndian_Uint32 (BigEndian_PutUint32 (word_of_nat (length data))))) = Inr (data, rest)"
    by (simp add: Uint32_PutUint32 io_ReadFull_def)
qed

lemma read_iteration_undecodable:
  assumes "DecodeMessage bad = None" "length bad < 2 ^ 32" "\<not> closed s"
    and "input s = frame bad @ rest"
  shows "read_iteration DecodeMessage hs now s =
         Continue (s\<lparr>input := rest, events := events s @ [ErrorDecodingMessage]\<rparr>)"
  using assms by (simp add: read_iteration_def io_ReadFull_frame Let_def)

lemma read_iteration_decodable:
  assumes "DecodeMessage good = Some msg" "length good < 2 ^ 32" "\<not> closed s"
    and "input s = frame good @ rest"
  shows "read_iteration DecodeMessage hs now s =
         Continue (s\<lparr>peer := (peer s)\<lparr>LastActive := now\<rparr>, input := rest,
                     events := events s @
                       (case hs (Type msg) of
                          Some handler \<Rightarrow> HandlerCalled (Type msg) msg #
                            (case handler ((peer s)\<lparr>LastActive := now\<rparr>) msg of
                               Some e \<Rightarrow> [ErrorHandlingMessage (Type msg)] | None \<Rightarrow> [])
                        | None \<Rightarrow> [NoHandlerRegistered (Type msg)])\<rparr>)"
  using assms by (simp add: read_iteration_def io_ReadFull_frame Let_def split: option.splits)

text \<open>What an active peer sends for a message is one frame.\<close>

lemma Send_active: "Conn pr \<noteq> None \<Longrightarrow> IsActive pr \<Longrightarrow> Send pr data = (None, frame data)"
  by (simp add: Send_def)

text \<open>The loop passes any run of undecodable frames, recording one error for each.\<close>

lemma read_loop_skips_undecodable:
  "\<forall>b\<in>set bads. DecodeMessage b = None \<and> length b < 2 ^ 32 \<Longrightarrow> \<not> closed s \<Longrightarrow>
   input s = concat (map frame bads) @ rest \<Longrightarrow>
   read_loop DecodeMessage hs now s =
     read_loop DecodeMessage hs now
       (s\<lparr>input := rest, events := events s @ replicate (length bads) ErrorDecodingMessage\<rparr>)"
proof (induction bads arbitrary: s)
  case Nil
  then have "s\<lparr>input := rest, events := events s @ replicate (length []) ErrorDecodingMessage\<rparr> = s"
    by simp
  then show ?case by simp
next
  case (Cons b bads)
  let ?s1 = "s\<lparr>input := concat (map frame bads) @ rest, events := events s @ [ErrorDecodingMessage]\<rparr>"
  have "read_iteration DecodeMessage hs now s = Continue ?s1"
    using Cons.prems by (intro read_iteration_undecodable) simp_all
  then have "read_loop DecodeMessage hs now s = read_loop DecodeMessage hs now ?s1"
    by (simp add: read_loop.simps [of _ _ _ s])
  also have "\<dots> = read_loop DecodeMessage hs now
       (?s1\<lparr>input := rest, events := events ?s1 @ replicate (length bads) ErrorDecodingMessage\<rparr>)"
    using Cons.prems by (intro Cons.IH) simp_all
  also have "?s1\<lparr>input := rest, events := events ?s1 @ replicate (length bads) ErrorDecodingMessage\<rparr>
     = s\<lparr>input := rest, events := events s @ replicate (length (b # bads)) ErrorDecodingMessage\<rparr>"
    by simp
  finally show ?case .
qed

text \<open>
  Claim C7: when the read loop meets a frame whose envelope does not decode, the iteration
  records the decode error and continues with the peer unchanged, still active, and the
  connection open. After this frame and any number of further undecodable frames, the
  next frame that decodes is decoded and the handler registered for its type is called
  (or the loop reports that there is none); the loop, and with it \<open>handleConnection\<close>,
  goes on from there. The connection is closed and the peer marked inactive only when
  the loop returns.
\<close>

theorem undecodable_frame_keeps_connection:
  assumes "DecodeMessage bad = None" "length bad < 2 ^ 32"
    and "\<forall>b\<in>set others. DecodeMessage b = None \<and> length b < 2 ^ 32"
    and "DecodeMessage good = Some msg" "length good < 2 ^ 32"
    and "\<not> closed s" "IsActive (peer s)"
    and "input s = frame bad @ concat (map frame others) @ frame good @ rest"
  shows "(let s1 = s\<lparr>input := concat (map frame others) @ frame good @ rest,
                      events := events s @ [ErrorDecodingMessage]\<rparr>;
              s2 = s\<lparr>input := frame good @ rest,
                      events := events s @ replicate (Suc (length others)) ErrorDecodingMessage\<rparr>;
              s3 = s2\<lparr>peer := (peer s)\<lparr>LastActive := now\<rparr>, input := rest,
                      events := events s2 @
                        (case handlers p (Type msg) of
                           Some handler \<Rightarrow> HandlerCalled (Type msg) msg #
                             (case handler ((peer s)\<lparr>LastActive := now\<rparr>) msg of
                                Some e \<Rightarrow> [ErrorHandlingMessage (Type msg)] | None \<Rightarrow> [])
                         | None \<Rightarrow> [NoHandlerRegistered (Type msg)])\<rparr>
          in read_iteration DecodeMessage (handlers p) now s = Continue s1
           \<and> \<not> closed s1 \<and> IsActive (peer s1) \<and> peer s1 = peer s
           \<and> read_loop DecodeMessage (handlers p) now s = read_loop DecodeMessage (handlers p) now s2
           \<and> read_iteration DecodeMessage (handlers p) now s2 = Continue s3
           \<and> \<not> closed s3 \<and> IsActive (peer s3)
           \<and> read_loop DecodeMessage (handlers p) now s = read_loop DecodeMessage (handlers p) now s3
           \<and> handleConnection DecodeMessage p now s = handleConnection DecodeMessage p now s3)"
proof -
  define s1 where "s1 = s\<lparr>input := concat (map frame others) @ frame good @ rest,
                      events := events s @ [ErrorDecodingMessage]\<rparr>"
  define s2 where "s2 = s\<lparr>input := frame good @ rest,
                      events := events s @ replicate (Suc (length others)) ErrorDecodingMessage\<rparr>"
  define s3 where "s3 = s2\<lparr>peer := (peer s)\<lparr>LastActive := now\<rparr>, input := rest,
                      events := events s2 @
                        (case handlers p (Type msg) of
                           Some handler \<Rightarrow> HandlerCalled (Type msg) msg #
                             (case handler ((peer s)\<lparr>LastActive := now\<rparr>) msg of
                                Some e \<Rightarrow> [ErrorHandlingMessage (Type msg)] | None \<Rightarrow> [])
                         | None \<Rightarrow> [NoHandlerRegistered (Type msg)])\<rparr>"
  have i1: "read_iteration DecodeMessage (handlers p) now s = Continue s1"
    unfolding s1_def using assms(1,2,6,8) by (rule read_iteration_undecodable)
  have "\<forall>b\<in>set (bad # others). DecodeMessage b = None \<and> length b < 2 ^ 32"
    using assms(1,2,3) by simp
  moreover have "input s = concat (map frame (bad # others)) @ frame good @ rest"
    using assms(8) by simp
  ultimately have "read_loop DecodeMessage (handlers p) now s =
     read_loop DecodeMessage (handlers p) now
       (s\<lparr>input := frame good @ rest,
           events := events s @ replicate (length (bad # others)) ErrorDecodingMessage\<rparr>)"
    using assms(6) by (intro read_loop_skips_undecodable)
  then have l2: "read_loop DecodeMessage (handlers p) now s = read_loop DecodeMessage (handlers p) now s2"
    by (simp add: s2_def)
  have ps2: "peer s2 = peer s" by (simp add: s2_def)
  have "read_iteration DecodeMessage (handlers p) now s2 =
         Continue (s2\<lparr>peer := (peer s2)\<lparr>LastActive := now\<rparr>, input := rest,
                     events := events s2 @
                       (case handlers p (Type msg) of
                          Some handler \<Rightarrow> HandlerCalled (Type msg) msg #
                            (case handler ((peer s2)\<lparr>LastActive := now\<rparr>) msg of
                               Some e \<Rightarrow> [ErrorHandlingMessage (Type msg)] | None \<Rightarrow> [])
                        | None \<Rightarrow> [NoHandlerRegistered (Type msg)])\<rparr>)"
    using assms(4,5,6) by (intro read_iteration_decodable) (simp_all add: s2_def)
  then have i3: "read_iteration DecodeMessage (handlers p) now s2 = Continue s3"
    unfolding ps2 s3_def .
  have l3: "read_loop DecodeMessage (handlers p) now s = read_loop DecodeMessage (handlers p) now s3"
    using l2 i3 by (simp add: read_loop.simps [of _ _ _ s2])
  have h: "handleConnection DecodeMessage p now s = handleConnection DecodeMessage p now s3"
    by (simp add: handleConnection_def l3)
  have st: "\<not> closed s1" "IsActive (peer s1)" "peer s1 = peer s" "\<not> closed s3" "IsActive (peer s3)"
    using assms(6,7) by (simp_all add: s1_def s2_def s3_def)
  show ?thesis
    using i1 l2 i3 l3 h st
    unfolding Let_def s1_def [symmetric] s2_def [symmetric] s3_def [symmetric] by simp
qed

theorem undecodable_frame_keeps_connection_witness:
  "example_decode [0] = None \<and> example_decode [1] = Some \<lparr>Type = 0, Payload = []\<rparr>
   \<and> input example_reader = frame [0] @ concat (map frame []) @ frame [1] @ []
   \<and> read_iteration example_decode [0 \<mapsto> (\<lambda>pr msg. None)] 5 example_reader
       = Continue (example_reader\<lparr>input := frame [1], events := [ErrorDecodingMessage]\<rparr>)
   \<and> handleConnection example_decode (example_network\<lparr>handlers := [0 \<mapsto> (\<lambda>pr msg. None)]\<rparr>) 5
        example_reader
       = \<lparr>peer = \<lparr>Peer.ID = [], Peer.Address = ''10.0.0.1:9000'', Conn = Some 1,
                  LastActive = 5, IsActive = False\<rparr>,
          input = [],
          closed = True,
          events = [ErrorDecodingMessage, HandlerCalled 0 \<lparr>Type = 0, Payload = []\<rparr>]\<rparr>"
proof -
  let ?p = "example_network\<lparr>handlers := [0 \<mapsto> (\<lambda>pr msg. None)]\<rparr>"
  have a: "example_decode [0] = None" "length [0 :: byte] < 2 ^ 32"
    "\<forall>b\<in>set []. example_decode b = None \<and> length b < 2 ^ 32"
    "example_decode [1] = Some \<lparr>Type = 0, Payload = []\<rparr>" "length [1 :: byte] < 2 ^ 32"
    by (simp_all add: example_decode_def)
  have c: "\<not> closed example_reader" "IsActive (peer example_reader)"
    "input example_reader = frame [0] @ concat (map frame []) @ frame [1] @ []"
    by (simp_all add: example_reader_def)
  note t = undecodable_frame_keeps_connection [OF a c, of 5 ?p]
  let ?s3 = "example_reader\<lparr>peer := (peer example_reader)\<lparr>LastActive := 5\<rparr>, input := [],
                events := [ErrorDecodingMessage, HandlerCalled 0 \<lparr>Type = 0, Payload = []\<rparr>]\<rparr>"
  have ev: "events example_reader = []" by (simp add: example_reader_def)
  from t have i1: "read_iteration example_decode [0 \<mapsto> (\<lambda>pr msg. None)] 5 example_reader
       = Continue (example_reader\<lparr>input := frame [1], events := [ErrorDecodingMessage]\<rparr>)"
    by (simp add: Let_def ev)
  from t have hc: "handleConnection example_decode ?p 5 example_reader
       = handleConnection example_decode ?p 5 ?s3"
    by (simp add: Let_def ev)
  have e: "read_loop example_decode [0 \<mapsto> (\<lambda>pr msg. None)] 5 ?s3 = ?s3"
    by (subst read_loop.simps) (simp add: read_iteration_def io_ReadFull_def example_reader_def)
  have "handleConnection example_decode ?p 5 ?s3
       = \<lparr>peer = \<lparr>Peer.ID = [], Peer.Address = ''10.0.0.1:9000'', Conn = Some 1,
                  LastActive = 5, IsActive = False\<rparr>,
          input = [],
          closed = True,
          events = [ErrorDecodingMessage, HandlerCalled 0 \<lparr>Type = 0, Payload = []\<rparr>]\<rparr>"
    unfolding handleConnection_def by (simp add: e) (simp add: example_reader_def)
  with hc i1 a(1,4) c(3) show ?thesis by simp
qed

section \<open>Properties of the chunk store\<close>

subsection \<open>Splitting\<close>

lemma take_drop_length_take: "take k xs @ drop (length (take k xs)) xs = xs"
  by (metis append_take_drop_id length_take min.commute take_all_iff min_def drop_all append_Nil2 linorder_linear)

text \<open>
  The loop from offset \<open>off\<close> of a file with content \<open>F\<close>, when no read and no chunk
  write fails, the source file is none of the chunk files, and different chunks of \<open>F\<close>
  are stored in different files: it returns the records of chunks \<open>datas\<close> that
  concatenate to the rest of \<open>F\<close>, each stored in its chunk file, and touches no
  other file.
\<close>

lemma chunk_loop_correct:
  assumes buf: "0 < bufLen"
    and rd: "\<not> fails sys (file_Read filePath)"
    and wr: "\<forall>i<length F. \<not> fails sys (os_WriteFile
                 (filepath_Join sys dir (H (take bufLen (drop i F)))))"
    and src: "\<forall>i<length F. resolve sys filePath \<noteq>
                 resolve sys (filepath_Join sys dir (H (take bufLen (drop i F))))"
    and inj: "\<forall>i<length F. \<forall>j<length F.
                 resolve sys (filepath_Join sys dir (H (take bufLen (drop i F)))) =
                 resolve sys (filepath_Join sys dir (H (take bufLen (drop j F))))
                 \<longrightarrow> take bufLen (drop i F) = take bufLen (drop j F)"
  shows "files (resolve sys filePath) = Some F \<Longrightarrow>
     \<exists>datas fc' files'.
        chunk_loop sys H filePath dir fid bufLen off index chunks fc files =
          (Returned (Inr (fid, chunks @ chunk_infos H fid index datas)), fc', files')
      \<and> chunksDir fc' = chunksDir fc
      \<and> concat datas = drop off F
      \<and> (\<forall>d\<in>set datas. \<exists>i<length F. d = take bufLen (drop i F))
      \<and> (\<forall>d\<in>set datas. files' (resolve sys (filepath_Join sys dir (H d))) = Some d)
      \<and> (\<forall>loc. (\<forall>d\<in>set datas. loc \<noteq> resolve sys (filepath_Join sys dir (H d)))
                 \<longrightarrow> files' loc = files loc)"
proof (induction "length F - off" arbitrary: off index chunks fc files rule: less_induct)
  case less
  let ?p = "\<lambda>d. resolve sys (filepath_Join sys dir (H d))"
  show ?case
  proof (cases "length F \<le> off")
    case True
    then have "chunk_loop sys H filePath dir fid bufLen off index chunks fc files =
          (Returned (Inr (fid, chunks)), fc, files)"
      using buf rd less.prems by (subst chunk_loop.simps) simp
    then show ?thesis using True
      by (intro exI [of _ "[]"] exI [of _ fc] exI [of _ files]) simp
  next
    case False
    then have off: "off < length F" by simp
    define chunk where "chunk = take bufLen (drop off F)"
    define info where "info = \<lparr>ID = H chunk, Index = index, Size = int (length chunk),
                               FileID = fid, Location = []\<rparr>"
    define files1 where "files1 = files(?p chunk \<mapsto> chunk)"
    define fc1 where "fc1 = fc\<lparr>chunksMeta := (chunksMeta fc)(H chunk \<mapsto> info)\<rparr>"
    have n: "0 < length chunk" using False buf by (simp add: chunk_def)
    have w: "\<not> fails sys (os_WriteFile (filepath_Join sys dir (H chunk)))"
      using wr off by (simp add: chunk_def)
    have step: "chunk_loop sys H filePath dir fid bufLen off index chunks fc files =
          chunk_loop sys H filePath dir fid bufLen (off + length chunk) (index + 1) (chunks @ [info])
            fc1 files1"
      using buf rd w less.prems False
      by (subst chunk_loop.simps) (simp add: Let_def chunk_def info_def files1_def fc1_def)
    have "resolve sys filePath \<noteq> ?p chunk" using src off by (simp add: chunk_def)
    then have f1: "files1 (resolve sys filePath) = Some F"
      using less.prems by (simp add: files1_def)
    have "length F - (off + length chunk) < length F - off" using n False by linarith
    from less.hyps [where off = "off + length chunk" and files = files1 and index = "index + 1"
                      and chunks = "chunks @ [info]" and fc = fc1, OF this f1]
    obtain datas fc' files' where r:
      "chunk_loop sys H filePath dir fid bufLen (off + length chunk) (index + 1) (chunks @ [info])
            fc1 files1 =
          (Returned (Inr (fid, (chunks @ [info]) @ chunk_infos H fid (index + 1) datas)), fc', files')"
      "chunksDir fc' = chunksDir fc1"
      "concat datas = drop (off + length chunk) F"
      "\<forall>d\<in>set datas. \<exists>i<length F. d = take bufLen (drop i F)"
      "\<forall>d\<in>set datas. files' (?p d) = Some d"
      "\<forall>loc. (\<forall>d\<in>set datas. loc \<noteq> ?p d) \<longrightarrow> files' loc = files1 loc"
      by blast
    have a: "chunk_loop sys H filePath dir fid bufLen off index chunks fc files =
          (Returned (Inr (fid, chunks @ chunk_infos H fid index (chunk # datas))), fc', files')"
      using step r(1) by (simp add: info_def)
    have "chunk @ drop (length chunk) (drop off F) = drop off F"
      unfolding chunk_def by (rule take_drop_length_take)
    then have b: "concat (chunk # datas) = drop off F"
      using r(3) by (simp add: add.commute)
    have c: "\<forall>d\<in>set (chunk # datas). \<exists>i<length F. d = take bufLen (drop i F)"
      using r(4) chunk_def off by auto
    have d0: "files' (?p chunk) = Some chunk"
    proof (cases "\<exists>d\<in>set datas. ?p chunk = ?p d")
      case True
      then obtain d where d: "d \<in> set datas" "?p chunk = ?p d" by blast
      obtain i where "i < length F" "d = take bufLen (drop i F)" using r(4) d(1) by blast
      then have "chunk = d" using inj d(2) off chunk_def by blast
      then show ?thesis using r(5) d(1) by simp
    next
      case False
      then have "files' (?p chunk) = files1 (?p chunk)" using r(6) by blast
      then show ?thesis by (simp add: files1_def)
    qed
    have d: "\<forall>d\<in>set (chunk # datas). files' (?p d) = Some d"
      using d0 r(5) by simp
    have e: "\<forall>loc. (\<forall>d\<in>set (chunk # datas). loc \<noteq> ?p d) \<longrightarrow> files' loc = files loc"
      using r(6) by (simp add: files1_def)
    have f: "chunksDir fc' = chunksDir fc" using r(2) by (simp add: fc1_def)
    show ?thesis using a f b c d e by blast
  qed
qed

subsection \<open>Reassembly and the round trip\<close>

lemma length_chunk_infos [simp]: "length (chunk_infos H fid index ds) = length ds"
  by (induction ds arbitrary: index) auto

lemma Index_chunk_infos:
  "map Index (chunk_infos H fid (int k) ds) = map int [k..<k + length ds]"
proof (induction ds arbitrary: k)
  case Nil
  then show ?case by simp
next
  case (Cons d ds)
  have "int k + 1 = int (Suc k)" by simp
  moreover have "[k..<k + length (d # ds)] = k # [Suc k..<Suc k + length ds]"
  proof -
    have "k < k + length (d # ds)" by simp
    then have "[k..<k + length (d # ds)] = k # [Suc k..<k + length (d # ds)]"
      by (rule upt_conv_Cons)
    moreover have "k + length (d # ds) = Suc k + length ds" by simp
    ultimately show ?thesis by (simp only:)
  qed
  ultimately show ?case using Cons [of "Suc k"] by (simp del: upt_Suc add: add.commute)
qed

lemma ID_chunk_infos: "map ChunkInfo.ID (chunk_infos H fid index ds) = map H ds"
  by (induction ds arbitrary: index) auto

lemma Size_chunk_infos: "map Size (chunk_infos H fid index ds) = map (\<lambda>d. int (length d)) ds"
  by (induction ds arbitrary: index) auto

lemma FileID_chunk_infos: "c \<in> set (chunk_infos H fid index ds) \<Longrightarrow> FileID c = fid"
  by (induction ds arbitrary: index) auto

lemma place_chunks_infos:
  "length slots = len \<Longrightarrow> k + length ds = len \<Longrightarrow>
   place_chunks (chunk_infos H fid (int k) ds) (int len) slots =
     Inr (take k slots @ map Some (chunk_infos H fid (int k) ds))"
proof (induction ds arbitrary: k slots)
  case Nil
  then show ?case by simp
next
  case (Cons d ds)
  let ?c = "\<lparr>ID = H d, Index = int k, Size = int (length d), FileID = fid, Location = []\<rparr>"
  have k: "k < len" using Cons.prems by simp
  have i: "int k + 1 = int (Suc k)" by simp
  have "place_chunks (chunk_infos H fid (int (Suc k)) ds) (int len) (slots[k := Some ?c]) =
     Inr (take (Suc k) (slots[k := Some ?c]) @ map Some (chunk_infos H fid (int (Suc k)) ds))"
    using Cons.prems by (intro Cons.IH) simp_all
  moreover have "take (Suc k) (slots[k := Some ?c]) = take k slots @ [Some ?c]"
    using k Cons.prems(1) by (simp add: take_Suc_conv_app_nth)
  ultimately show ?case using k by (simp add: i)
qed

text \<open>
  The write loop over the records of chunks \<open>ds\<close> that all lie in their chunk files,
  none of which is the output file, when no chunk read and no write fails: it appends
  the chunks to the output in order.
\<close>

lemma write_chunks_infos:
  "files (resolve sys outputPath) = Some out0 \<Longrightarrow>
   \<forall>d\<in>set ds. files (resolve sys (filepath_Join sys dir (H d))) = Some d
              \<and> resolve sys outputPath \<noteq> resolve sys (filepath_Join sys dir (H d))
              \<and> \<not> fails sys (os_ReadFile (filepath_Join sys dir (H d))) \<Longrightarrow>
   \<not> fails sys (file_Write outputPath) \<Longrightarrow>
   write_chunks sys dir outputPath (map Some (chunk_infos H fid index ds)) files =
     (Returned None, files(resolve sys outputPath \<mapsto> out0 @ concat ds))"
proof (induction ds arbitrary: index files out0)
  case Nil
  then have "files(resolve sys outputPath \<mapsto> out0) = files" by (simp add: map_upd_triv)
  then show ?case by simp
next
  case (Cons d ds)
  let ?out = "resolve sys outputPath"
  let ?files1 = "files(?out \<mapsto> out0 @ d)"
  have 1: "?files1 ?out = Some (out0 @ d)" by simp
  have 2: "\<forall>d\<in>set ds. ?files1 (resolve sys (filepath_Join sys dir (H d))) = Some d
              \<and> ?out \<noteq> resolve sys (filepath_Join sys dir (H d))
              \<and> \<not> fails sys (os_ReadFile (filepath_Join sys dir (H d)))"
    using Cons.prems(2) by auto
  have ih: "write_chunks sys dir outputPath (map Some (chunk_infos H fid (index + 1) ds)) ?files1 =
     (Returned None, ?files1(?out \<mapsto> (out0 @ d) @ concat ds))"
    using 1 2 Cons.prems(3) by (rule Cons.IH)
  have rd: "files (resolve sys (filepath_Join sys dir (H d))) = Some d"
    "\<not> fails sys (os_ReadFile (filepath_Join sys dir (H d)))"
    using Cons.prems(2) by simp_all
  have step: "write_chunks sys dir outputPath (map Some (chunk_infos H fid index (d # ds))) files =
        write_chunks sys dir outputPath (map Some (chunk_infos H fid (index + 1) ds)) ?files1"
    by (simp add: rd file_content_def Cons.prems(1,3) Let_def)
  have eq: "?files1(?out \<mapsto> (out0 @ d) @ concat ds) = files(?out \<mapsto> out0 @ concat (d # ds))"
    by simp
  show ?case unfolding step ih eq ..
qed

text \<open>
  Claim C1: for a file with content \<open>F\<close> and a chunk size in (0, 1 MiB], a chunker is
  created, \<open>ChunkFile\<close> returns the file id \<open>H F\<close> and chunks with indices 0, 1, ...,
  whose ids are the digests of chunk contents that concatenate to \<open>F\<close> and are stored
  under these ids, and \<open>ReassembleFile\<close> on that result returns no error and leaves
  exactly \<open>F\<close> in the output file. Assumed of the run: none of the file-system calls
  made fails; the files that the source path and the output path name are none of the
  files of this file's chunks; and chunks of \<open>F\<close> with different content are stored in
  different files (so their digests differ).
\<close>

theorem chunk_reassemble_roundtrip:
  fixes sys :: os and H :: "byte list \<Rightarrow> string"
    and dir :: string and F :: "byte list" and csize :: int
  defines "fdir \<equiv> filepath_Join sys dir (H F)"
    and "window \<equiv> \<lambda>i. take (nat csize) (drop i F)"
  defines "chunkFile \<equiv> \<lambda>i. resolve sys (filepath_Join sys fdir (H (window i)))"
  assumes "0 < csize" "csize \<le> MaxChunkSize"
    and "files (resolve sys filePath) = Some F"
    and "\<not> fails sys (os_MkdirAll dir)"
    and "\<not> fails sys (os_Open filePath)" "\<not> fails sys (io_Copy filePath)"
    and "\<not> fails sys (file_Seek filePath)" "\<not> fails sys (os_MkdirAll fdir)"
    and "\<not> fails sys (file_Read filePath)"
    and "\<forall>i<length F. \<not> fails sys (os_WriteFile (filepath_Join sys fdir (H (window i))))"
    and "\<not> fails sys (os_Create outputPath)"
    and "\<forall>i<length F. \<not> fails sys (os_ReadFile (filepath_Join sys fdir (H (window i))))"
    and "\<not> fails sys (file_Write outputPath)"
    and "\<forall>i<length F. resolve sys filePath \<noteq> chunkFile i"
    and "\<forall>i<length F. resolve sys outputPath \<noteq> chunkFile i"
    and "\<forall>i<length F. \<forall>j<length F. chunkFile i = chunkFile j \<longrightarrow> window i = window j"
  shows "\<exists>fc chunks datas fc' files' files''.
      NewFileChunker sys dir csize = Inr fc
    \<and> ChunkFile sys H fc files filePath = (Returned (Inr (H F, chunks)), fc', files')
    \<and> ReassembleFile sys fc' files' (H F) chunks outputPath = (Returned None, files'')
    \<and> files'' (resolve sys outputPath) = Some F
    \<and> concat datas = F
    \<and> map Index chunks = map int [0..<length chunks]
    \<and> map ChunkInfo.ID chunks = map H datas
    \<and> map Size chunks = map (\<lambda>d. int (length d)) datas
    \<and> (\<forall>d\<in>set datas. files' (resolve sys (filepath_Join sys fdir (H d))) = Some d)"
proof -
  define fc where "fc = \<lparr>chunkSize = csize, chunksDir = dir, chunksMeta = Map.empty\<rparr>"
  have new: "NewFileChunker sys dir csize = Inr fc"
    using assms(4,5,7) by (simp add: NewFileChunker_def Let_def fc_def)
  have cs: "chunkSize fc = csize" "chunksDir fc = dir" by (simp_all add: fc_def)
  have pos: "0 < nat csize" using assms(4) by simp
  have wr: "\<forall>i<length F. \<not> fails sys (os_WriteFile
                 (filepath_Join sys fdir (H (take (nat csize) (drop i F)))))"
    using assms(13) by (simp add: window_def)
  have src: "\<forall>i<length F. resolve sys filePath \<noteq>
                 resolve sys (filepath_Join sys fdir (H (take (nat csize) (drop i F))))"
    using assms(17) by (simp add: chunkFile_def window_def)
  have inj: "\<forall>i<length F. \<forall>j<length F.
                 resolve sys (filepath_Join sys fdir (H (take (nat csize) (drop i F)))) =
                 resolve sys (filepath_Join sys fdir (H (take (nat csize) (drop j F))))
                 \<longrightarrow> take (nat csize) (drop i F) = take (nat csize) (drop j F)"
    using assms(19) by (simp add: chunkFile_def window_def)
  obtain datas fc' files' where r:
    "chunk_loop sys H filePath fdir (H F) (nat csize) 0 0 [] fc files =
       (Returned (Inr (H F, [] @ chunk_infos H (H F) 0 datas)), fc', files')"
    "chunksDir fc' = chunksDir fc"
    "concat datas = drop 0 F"
    "\<forall>d\<in>set datas. \<exists>i<length F. d = take (nat csize) (drop i F)"
    "\<forall>d\<in>set datas. files' (resolve sys (filepath_Join sys fdir (H d))) = Some d"
    using chunk_loop_correct [where bufLen = "nat csize" and filePath = filePath and dir = fdir
            and H = H and F = F and files = files and fid = "H F" and off = 0 and index = 0
            and chunks = "[]" and fc = fc and sys = sys, OF pos assms(12) wr src inj assms(6)]
    by blast
  let ?chunks = "chunk_infos H (H F) 0 datas"
  have a: "ChunkFile sys H fc files filePath = (Returned (Inr (H F, ?chunks)), fc', files')"
    using r(1) assms(4,6,8,9,10,11) cs
    by (simp add: ChunkFile_def Let_def fdir_def)
  have dirfc: "chunksDir fc' = dir" using r(2) cs by simp
  let ?out = "resolve sys outputPath"
  let ?files1 = "files'(?out \<mapsto> [])"
  have pl: "place_chunks ?chunks (int (length ?chunks)) (replicate (length ?chunks) None) =
            Inr (map Some ?chunks)"
    using place_chunks_infos [of "replicate (length datas) None" "length datas" 0 datas H "H F"]
    by simp
  have 1: "?files1 ?out = Some []" by simp
  have 2: "\<forall>d\<in>set datas. ?files1 (resolve sys (filepath_Join sys fdir (H d))) = Some d
              \<and> ?out \<noteq> resolve sys (filepath_Join sys fdir (H d))
              \<and> \<not> fails sys (os_ReadFile (filepath_Join sys fdir (H d)))"
  proof
    fix d assume d: "d \<in> set datas"
    then obtain i where i: "i < length F" "d = take (nat csize) (drop i F)" using r(4) by blast
    have "?out \<noteq> resolve sys (filepath_Join sys fdir (H d))"
      using assms(18) i by (simp add: chunkFile_def window_def)
    moreover have "\<not> fails sys (os_ReadFile (filepath_Join sys fdir (H d)))"
      using assms(15) i by (simp add: window_def)
    moreover have "files' (resolve sys (filepath_Join sys fdir (H d))) = Some d"
      using r(5) d by blast
    ultimately show "?files1 (resolve sys (filepath_Join sys fdir (H d))) = Some d
              \<and> ?out \<noteq> resolve sys (filepath_Join sys fdir (H d))
              \<and> \<not> fails sys (os_ReadFile (filepath_Join sys fdir (H d)))"
      by simp
  qed
  have wrc: "write_chunks sys fdir outputPath (map Some ?chunks) ?files1 =
     (Returned None, ?files1(?out \<mapsto> [] @ concat datas))"
    using 1 2 assms(16) by (rule write_chunks_infos)
  define files'' where "files'' = ?files1(?out \<mapsto> [] @ concat datas)"
  have b: "ReassembleFile sys fc' files' (H F) ?chunks outputPath = (Returned None, files'')"
    using pl wrc assms(14) by (simp add: ReassembleFile_def Let_def dirfc files''_def fdir_def)
  have c: "files'' ?out = Some F"
    using r(3) by (simp add: files''_def)
  have d: "map Index ?chunks = map int [0..<length ?chunks]"
    using Index_chunk_infos [of H "H F" 0 datas] by simp
  show ?thesis
    using new a b c d r(3,5)
    by (intro exI [of _ fc] exI [of _ ?chunks] exI [of _ datas] exI [of _ fc'] exI [of _ files']
              exI [of _ files''])
       (simp add: ID_chunk_infos Size_chunk_infos)
qed

lemma inj_example_digest: "example_digest a = example_digest b \<Longrightarrow> a = b"
proof -
  have "inj (\<lambda>b :: byte. (char_of (unat b) :: char))"
  proof (rule injI)
    fix x y :: byte
    assume "(char_of (unat x) :: char) = char_of (unat y)"
    then have "of_char (char_of (unat x) :: char) = (of_char (char_of (unat y) :: char) :: nat)"
      by simp
    then have "unat x mod 256 = unat y mod 256" by (simp only: of_char_of)
    moreover have "unat x < 256" "unat y < 256" using unsigned_less [of x] unsigned_less [of y] by simp_all
    ultimately show "x = y" by (simp add: word_unat_eq_iff)
  qed
  then show "example_digest a = example_digest b \<Longrightarrow> a = b"
    unfolding example_digest_def by (simp add: inj_map_eq_map)
qed

lemma NewFileChunker_example: "NewFileChunker example_os ''/chunks'' 2 = Inr example_chunker"
  by (simp add: NewFileChunker_def example_os_def example_chunker_def DefaultChunkSize_def
        MaxChunkSize_def)

text \<open>The five bytes split into chunks of 2, 2 and 1 bytes.\<close>

lemma ChunkFile_example:
  "fst (ChunkFile example_os example_digest example_chunker example_files ''/data/f'') =
     Returned (Inr (example_digest [1, 2, 3, 4, 5],
       [\<lparr>ID = example_digest [1, 2], Index = 0, Size = 2, FileID = example_digest [1, 2, 3, 4, 5], Location = []\<rparr>,
        \<lparr>ID = example_digest [3, 4], Index = 1, Size = 2, FileID = example_digest [1, 2, 3, 4, 5], Location = []\<rparr>,
        \<lparr>ID = example_digest [5], Index = 2, Size = 1, FileID = example_digest [1, 2, 3, 4, 5], Location = []\<rparr>]))"
  by (simp add: ChunkFile_def example_chunker_def example_os_def
        example_files_def chunk_loop.simps Let_def example_digest_def)

theorem chunk_reassemble_roundtrip_witness:
  "(0 :: int) < 2 \<and> 2 \<le> MaxChunkSize
   \<and> example_files (resolve example_os ''/data/f'') = Some [1, 2, 3, 4, 5]
   \<and> NewFileChunker example_os ''/chunks'' 2 = Inr example_chunker
   \<and> (case ChunkFile example_os example_digest example_chunker example_files ''/data/f'' of
         (Returned (Inr (fileID, chunks)), fc', files') \<Rightarrow>
            map Size chunks = [2, 2, 1] \<and> map Index chunks = [0, 1, 2]
          \<and> map ChunkInfo.ID chunks = [example_digest [1, 2], example_digest [3, 4], example_digest [5]]
          \<and> (case ReassembleFile example_os fc' files' fileID chunks ''/out/f'' of
                (r, files'') \<Rightarrow> r = Returned None \<and> files'' ''/out/f'' = Some [1, 2, 3, 4, 5])
       | _ \<Rightarrow> False)"
proof -
  let ?F = "[1, 2, 3, 4, 5] :: byte list"
  let ?fdir = "filepath_Join example_os ''/chunks'' (example_digest ?F)"
  let ?cf = "\<lambda>i. resolve example_os
                 (filepath_Join example_os ?fdir (example_digest (take (nat 2) (drop i ?F))))"
  have h1: "(0 :: int) < 2" "2 \<le> MaxChunkSize" by (simp_all add: MaxChunkSize_def)
  have h3: "example_files (resolve example_os ''/data/f'') = Some ?F"
    by (simp add: example_files_def example_os_def)
  have ok: "\<And>c. \<not> fails example_os c" by (simp add: example_os_def)
  have h4: "\<forall>i<length ?F. resolve example_os ''/data/f'' \<noteq> ?cf i"
    by (simp add: example_os_def)
  have h5: "\<forall>i<length ?F. resolve example_os ''/out/f'' \<noteq> ?cf i"
    by (simp add: example_os_def)
  have h6: "\<forall>i<length ?F. \<forall>j<length ?F. ?cf i = ?cf j
              \<longrightarrow> take (nat 2) (drop i ?F) = take (nat 2) (drop j ?F)"
  proof (intro allI impI)
    fix i j
    assume "?cf i = ?cf j"
    then have "example_digest (take (nat 2) (drop i ?F)) = example_digest (take (nat 2) (drop j ?F))"
      by (simp add: example_os_def)
    then show "take (nat 2) (drop i ?F) = take (nat 2) (drop j ?F)"
      by (rule inj_example_digest)
  qed
  obtain fc chunks datas fc' files' files'' where r:
    "NewFileChunker example_os ''/chunks'' 2 = Inr fc"
    "ChunkFile example_os example_digest fc example_files ''/data/f''
       = (Returned (Inr (example_digest ?F, chunks)), fc', files')"
    "ReassembleFile example_os fc' files' (example_digest ?F) chunks ''/out/f'' = (Returned None, files'')"
    "files'' (resolve example_os ''/out/f'') = Some ?F"
    using chunk_reassemble_roundtrip [where csize = 2 and files = example_files
            and filePath = "''/data/f''" and F = ?F and dir = "''/chunks''" and H = example_digest
            and outputPath = "''/out/f''" and sys = example_os,
            OF h1 h3 ok ok ok ok ok ok _ ok _ ok h4 h5 h6]
      ok
    by blast
  have fc: "fc = example_chunker" using r(1) by (simp add: NewFileChunker_example)
  have "fst (ChunkFile example_os example_digest example_chunker example_files ''/data/f'') =
     Returned (Inr (example_digest ?F, chunks))"
    using r(2) fc by simp
  then have c: "chunks =
       [\<lparr>ID = example_digest [1, 2], Index = 0, Size = 2, FileID = example_digest ?F, Location = []\<rparr>,
        \<lparr>ID = example_digest [3, 4], Index = 1, Size = 2, FileID = example_digest ?F, Location = []\<rparr>,
        \<lparr>ID = example_digest [5], Index = 2, Size = 1, FileID = example_digest ?F, Location = []\<rparr>]"
    by (simp add: ChunkFile_example)
  have o: "resolve example_os ''/out/f'' = ''/out/f''" by (simp add: example_os_def)
  show ?thesis
    using h1 h3 r(2,3,4) fc NewFileChunker_example
    by (simp add: c o)
qed

text \<open>
  The hypotheses on the output path are needed. Under \<open>alias_os\<close> the output path below
  names the file of the first chunk: \<open>os.Create\<close> truncates that chunk and the output
  holds the last three bytes only. And a call that fails ends either function with its
  error.
\<close>

lemma reassemble_into_chunk_file_example:
  "(case ChunkFile alias_os example_digest example_chunker example_files ''/data/f'' of
      (Returned (Inr (fileID, chunks)), fc', files') \<Rightarrow>
         (let outputPath = ''/out/../chunks/'' @ fileID @ ''/'' @ example_digest [1, 2]
          in resolve alias_os outputPath
               = resolve alias_os
                   (filepath_Join alias_os (filepath_Join alias_os ''/chunks'' fileID)
                      (example_digest [1, 2]))
           \<and> (case ReassembleFile alias_os fc' files' fileID chunks outputPath of
                 (r, files'') \<Rightarrow>
                   r = Returned None \<and> files'' (resolve alias_os outputPath) = Some [3, 4, 5]))
    | _ \<Rightarrow> False)"
  by (simp add: ChunkFile_def ReassembleFile_def example_chunker_def alias_os_def example_os_def
        example_files_def chunk_loop.simps Let_def example_digest_def file_content_def)

lemma ReassembleFile_create_fails:
  "fails sys (os_Create outputPath) \<Longrightarrow>
   ReassembleFile sys fc files fileID chunks outputPath
     = (Returned (Some FailedToCreateOutputFile), files)"
  by (simp add: ReassembleFile_def)

lemma NewFileChunker_mkdir_fails:
  "fails sys (os_MkdirAll dir) \<Longrightarrow> NewFileChunker sys dir requested = Inl FailedToCreateChunksDir"
  by (simp add: NewFileChunker_def Let_def)

subsection \<open>Chunk indices\<close>

lemma place_chunks_out_of_range:
  "\<exists>c\<in>set chunks. Index c < 0 \<or> len \<le> Index c \<Longrightarrow>
   \<exists>i. place_chunks chunks len slots = Inl (InvalidChunkIndex i) \<and> (i < 0 \<or> len \<le> i)"
  by (induction chunks arbitrary: slots) auto

lemma place_chunks_in_range:
  "\<forall>c\<in>set chunks. 0 \<le> Index c \<and> Index c < len \<Longrightarrow>
   \<exists>slots'. place_chunks chunks len slots = Inr slots'"
  by (induction chunks arbitrary: slots) auto

lemma write_chunks_result:
  "fst (write_chunks sys dir outputPath slots files) = Returned None
   \<or> fst (write_chunks sys dir outputPath slots files) = Panicked NilPointerDereference
   \<or> (\<exists>e. fst (write_chunks sys dir outputPath slots files) = Returned (Some e)
            \<and> kind e = IOFailure)"
proof (induction sys dir outputPath slots files rule: write_chunks.induct)
  case (1 sys dir outputPath files)
  then show ?case by simp
next
  case (2 sys dir outputPath rest files)
  then show ?case by simp
next
  case (3 sys dir outputPath chunk rest files)
  then show ?case
    by (cases "files (resolve sys (filepath_Join sys dir (ChunkInfo.ID chunk)))")
       (auto simp: fun_upd_def Let_def)
qed

text \<open>
  An index out of range is rejected with the InvalidInput error, once the output file
  has been created and before any chunk is read.
\<close>

lemma ReassembleFile_out_of_range:
  assumes "\<exists>c\<in>set chunks. Index c < 0 \<or> int (length chunks) \<le> Index c"
    and "\<not> fails sys (os_Create outputPath)"
  shows "\<exists>i. ReassembleFile sys fc files fileID chunks outputPath =
              (Returned (Some (InvalidChunkIndex i)), files(resolve sys outputPath \<mapsto> []))
           \<and> kind (InvalidChunkIndex i) = InvalidInput"
proof -
  obtain i where "place_chunks chunks (int (length chunks)) (replicate (length chunks) None)
                    = Inl (InvalidChunkIndex i)"
    using place_chunks_out_of_range [OF assms(1)] by blast
  then show ?thesis using assms(2) by (simp add: ReassembleFile_def Let_def)
qed

text \<open>
  With every index in range, whether or not the indices are dense, the call never returns
  an InvalidInput error: it returns no error, fails in a file-system call, or panics.
\<close>

lemma ReassembleFile_in_range:
  assumes "\<forall>c\<in>set chunks. 0 \<le> Index c \<and> Index c < int (length chunks)"
  shows "fst (ReassembleFile sys fc files fileID chunks outputPath) = Returned None
       \<or> fst (ReassembleFile sys fc files fileID chunks outputPath) = Panicked NilPointerDereference
       \<or> (\<exists>e. fst (ReassembleFile sys fc files fileID chunks outputPath) = Returned (Some e)
                \<and> kind e = IOFailure)"
proof (cases "fails sys (os_Create outputPath)")
  case True
  then show ?thesis by (simp add: ReassembleFile_def)
next
  case False
  obtain slots where "place_chunks chunks (int (length chunks)) (replicate (length chunks) None)
                    = Inr slots"
    using place_chunks_in_range [OF assms] by blast
  then show ?thesis
    using False
      write_chunks_result [of sys "filepath_Join sys (chunksDir fc) fileID" outputPath slots
                                  "files(resolve sys outputPath \<mapsto> [])"]
    by (simp add: ReassembleFile_def Let_def)
qed

text \<open>
  Claim C2 states that a list whose indices are not a dense permutation, such as one with
  a duplicated index, fails with InvalidInput. The code does not: for two chunks that
  both carry index 0, slot 0 of \<open>sortedChunks\<close> holds the second chunk and slot 1 stays
  nil; the call writes the second chunk to the output and then panics on the nil entry.
\<close>

theorem reassemble_duplicate_index_panics:
  "ReassembleFile example_os example_chunker example_chunk_files ''f1''
     [\<lparr>ID = ''c0'', Index = 0, Size = 2, FileID = ''f1'', Location = []\<rparr>,
      \<lparr>ID = ''c1'', Index = 0, Size = 1, FileID = ''f1'', Location = []\<rparr>]
     ''/out/f1''
   = (Panicked NilPointerDereference, example_chunk_files(''/out/f1'' \<mapsto> [3]))"
  by (simp add: ReassembleFile_def example_chunker_def example_os_def
        Let_def example_chunk_files_def file_content_def)

end
